theory Spec2Isabelle
  imports Main "HOL-Library.Sublist"
begin

section \<open>Python string operations used by fip_reader.py\<close>

text \<open>
  Strings are \<^typ>\<open>string\<close> (lists of 8-bit characters). \<open>str.lower\<close> and
  \<open>str.upper\<close> are modelled on the ASCII letters and leave every other character
  unchanged; all patterns the program searches for are ASCII.
\<close>

definition lower_char :: "char \<Rightarrow> char" where
  "lower_char c =
     (let n = (of_char c :: nat) in if 65 \<le> n \<and> n \<le> 90 then char_of (n + 32) else c)"

definition upper_char :: "char \<Rightarrow> char" where
  "upper_char c =
     (let n = (of_char c :: nat) in if 97 \<le> n \<and> n \<le> 122 then char_of (n - 32) else c)"

definition str_lower :: "string \<Rightarrow> string" where
  "str_lower s = map lower_char s"

definition str_upper :: "string \<Rightarrow> string" where
  "str_upper s = map upper_char s"

text \<open>\<open>sub in s\<close>: \<open>sub\<close> occurs in \<open>s\<close> as a contiguous substring.\<close>

fun str_contains :: "string \<Rightarrow> string \<Rightarrow> bool" where
  "str_contains sub [] = (sub = [])"
| "str_contains sub (c # cs) = (prefix sub (c # cs) \<or> str_contains sub cs)"

text \<open>
  \<open>s.split(sep)\<close>: scan from the left; at each occurrence of \<open>sep\<close> close the
  current piece and continue after the occurrence. The separators of this program are
  non-empty literals (Python raises ValueError on an empty one).
\<close>

fun split_acc :: "string \<Rightarrow> string \<Rightarrow> string \<Rightarrow> string list" where
  "split_acc sep acc [] = [acc]"
| "split_acc sep acc (c # cs) =
     (if prefix sep (c # cs) then acc # split_acc sep [] (drop (length sep - 1) cs)
      else split_acc sep (acc @ [c]) cs)"

definition str_split :: "string \<Rightarrow> string \<Rightarrow> string list" where
  "str_split s sep = split_acc sep [] s"

text \<open>
  \<open>s.rsplit(c, 1)\<close> for a one-character separator: cut once, at the rightmost
  occurrence; without an occurrence the result is \<open>[s]\<close>.
\<close>

definition rsplit1 :: "string \<Rightarrow> char \<Rightarrow> string list" where
  "rsplit1 s c =
     (if c \<in> set s
      then [rev (tl (dropWhile (\<lambda>x. x \<noteq> c) (rev s))), rev (takeWhile (\<lambda>x. x \<noteq> c) (rev s))]
      else [s])"

text \<open>\<open>s.replace(a, b)\<close> for one-character \<open>a\<close> and \<open>b\<close>.\<close>

definition replace_char :: "char \<Rightarrow> char \<Rightarrow> string \<Rightarrow> string" where
  "replace_char a b s = map (\<lambda>c. if c = a then b else c) s"

text \<open>Truthiness of a value that is \<open>None\<close> or a string.\<close>

definition truthy :: "string option \<Rightarrow> bool" where
  "truthy v = (case v of None \<Rightarrow> False | Some s \<Rightarrow> s \<noteq> [])"

definition py_or :: "string option \<Rightarrow> string option \<Rightarrow> string option" where
  "py_or a b = (if truthy a then a else b)"


section \<open>Principle Organizer (nanopublication variant)\<close>

text \<open>The dict built by \<open>parse_declaration\<close>; all five keys are always present.\<close>

record fip_declaration =
  question :: "string option"
  question_id :: "string option"
  resource_label :: "string option"
  resource_uri :: "string option"
  resource_type :: string

text \<open>
  \<open>{"label": ..., "uri": ..., "type": ...}\<close>; the value type of label and uri depends
  on the pipeline (None-or-string here, a JSON value in the JSON variant).
\<close>

record 'v resource_info =
  ri_label :: 'v
  ri_uri :: 'v
  ri_type :: string

record 'v bucket =
  data :: "'v resource_info list"
  metadata :: "'v resource_info list"

type_synonym 'v organized = "string \<rightharpoonup> 'v bucket"

definition principle_keys :: "string list" where
  "principle_keys =
     [''F1'', ''F2'', ''F3'', ''F4'', ''A1'', ''A1.1'', ''A1.2'', ''A2'',
      ''I1'', ''I2'', ''I3'', ''R1'', ''R1.1'', ''R1.2'', ''R1.3'']"

definition empty_organized :: "'v organized" where
  "empty_organized =
     fold (\<lambda>principle_key organized. organized(principle_key \<mapsto> \<lparr>data = [], metadata = []\<rparr>))
       principle_keys Map.empty"

text \<open>The \<open>if "-" in q_id: ... else: ...\<close> block: principle and type suffix.\<close>

definition question_id_parts :: "string \<Rightarrow> string \<times> string" where
  "question_id_parts q_id =
     (if str_contains ''-'' q_id
      then (let parts = rsplit1 q_id (CHR ''-'')
            in (hd parts, if length parts > 1 then parts ! 1 else ''D''))
      else (q_id, ''D''))"

definition decl_resource_info :: "fip_declaration \<Rightarrow> string option resource_info" where
  "decl_resource_info decl =
     \<lparr>ri_label = py_or (resource_label decl) (resource_uri decl),
      ri_uri = resource_uri decl,
      ri_type = resource_type decl\<rparr>"

definition add_metadata :: "string \<Rightarrow> 'v resource_info \<Rightarrow> 'v organized \<Rightarrow> 'v organized" where
  "add_metadata principle info organized =
     (case organized principle of
        None \<Rightarrow> organized
      | Some b \<Rightarrow> organized(principle \<mapsto> b\<lparr>metadata := metadata b @ [info]\<rparr>))"

definition add_data :: "string \<Rightarrow> 'v resource_info \<Rightarrow> 'v organized \<Rightarrow> 'v organized" where
  "add_data principle info organized =
     (case organized principle of
        None \<Rightarrow> organized
      | Some b \<Rightarrow> organized(principle \<mapsto> b\<lparr>data := data b @ [info]\<rparr>))"

text \<open>One iteration of the loop over the declarations.\<close>

definition organize_step :: "fip_declaration \<Rightarrow> string option organized \<Rightarrow> string option organized" where
  "organize_step decl organized =
     (if \<not> truthy (question_id decl) then organized
      else (let q_id = the (question_id decl);
                (principle, dtype) = question_id_parts q_id
            in if principle \<in> dom organized
               then (if str_upper dtype = ''MD''
                     then add_metadata principle (decl_resource_info decl) organized
                     else add_data principle (decl_resource_info decl) organized)
               else organized))"

definition organize_by_principle :: "fip_declaration list \<Rightarrow> string option organized" where
  "organize_by_principle declarations = fold organize_step declarations empty_organized"


section \<open>JSON pipeline\<close>

text \<open>A dynamically typed value: \<open>None\<close>, a string or a list.\<close>

datatype pyval = PNone | PStr string | PList "pyval list"

definition py_truthy :: "pyval \<Rightarrow> bool" where
  "py_truthy v = (case v of PNone \<Rightarrow> False | PStr s \<Rightarrow> s \<noteq> [] | PList xs \<Rightarrow> xs \<noteq> [])"

definition pv_or :: "pyval \<Rightarrow> pyval \<Rightarrow> pyval" where
  "pv_or a b = (if py_truthy a then a else b)"

text \<open>\<open>d.get(k)\<close> and \<open>d.get(k, default)\<close> on the looked-up entry of a dict.\<close>

definition get_or_none :: "pyval option \<Rightarrow> pyval" where
  "get_or_none v = (case v of None \<Rightarrow> PNone | Some x \<Rightarrow> x)"

definition get_or :: "pyval \<Rightarrow> pyval option \<Rightarrow> pyval" where
  "get_or d v = (case v of None \<Rightarrow> d | Some x \<Rightarrow> x)"

text \<open>The table \<open>FIP_QUESTIONS\<close> in insertion order: key, principle, type, question.\<close>

definition FIP_QUESTIONS :: "(string \<times> string \<times> string \<times> string) list" where
  "FIP_QUESTIONS =
   [(''FIP-Question-F1-D'', ''F1'', ''Data'', ''What globally unique, persistent, resolvable identifiers do you use for datasets?''),
    (''FIP-Question-F1-MD'', ''F1'', ''Metadata'', ''What globally unique, persistent, resolvable identifiers do you use for metadata records?''),
    (''FIP-Question-F2-D'', ''F2'', ''Data'', ''Which metadata schemas do you use for findability?''),
    (''FIP-Question-F2-MD'', ''F2'', ''Metadata'', ''Which metadata schemas do you use for describing metadata?''),
    (''FIP-Question-F3-D'', ''F3'', ''Data'', ''What is the technology that links the persistent identifiers of your data to the metadata description?''),
    (''FIP-Question-F3-MD'', ''F3'', ''Metadata'', ''What is the technology linking metadata identifiers?''),
    (''FIP-Question-F4-D'', ''F4'', ''Data'', ''In which search engines are your datasets indexed?''),
    (''FIP-Question-F4-MD'', ''F4'', ''Metadata'', ''In which search engines are your metadata records indexed?''),
    (''FIP-Question-A1-D'', ''A1'', ''Data'', ''Which standardized communication protocols do you use for datasets?''),
    (''FIP-Question-A1-MD'', ''A1'', ''Metadata'', ''Which standardized communication protocols do you use for metadata?''),
    (''FIP-Question-A1.1-D'', ''A1.1'', ''Data'', ''Which authentication & authorization technique do you use for datasets?''),
    (''FIP-Question-A1.1-MD'', ''A1.1'', ''Metadata'', ''Which authentication & authorization technique do you use for metadata?''),
    (''FIP-Question-A1.2-D'', ''A1.2'', ''Data'', ''Which authentication & authorization technique do you use for datasets?''),
    (''FIP-Question-A1.2-MD'', ''A1.2'', ''Metadata'', ''Which authentication & authorization technique do you use for metadata?''),
    (''FIP-Question-A2'', ''A2'', ''Metadata'', ''Which metadata longevity plan do you use?''),
    (''FIP-Question-I1-D'', ''I1'', ''Data'', ''Which knowledge representation languages do you use for datasets?''),
    (''FIP-Question-I1-MD'', ''I1'', ''Metadata'', ''Which knowledge representation languages do you use for metadata?''),
    (''FIP-Question-I2-D'', ''I2'', ''Data'', ''Which structured vocabularies do you use for datasets?''),
    (''FIP-Question-I2-MD'', ''I2'', ''Metadata'', ''Which structured vocabularies do you use for metadata?''),
    (''FIP-Question-I3-D'', ''I3'', ''Data'', ''Which models/formats do you use for qualified references between datasets?''),
    (''FIP-Question-I3-MD'', ''I3'', ''Metadata'', ''Which models/formats do you use for qualified references in metadata?''),
    (''FIP-Question-R1-D'', ''R1'', ''Data'', ''Which metadata schemas do you use for rich description?''),
    (''FIP-Question-R1-MD'', ''R1'', ''Metadata'', ''Which metadata schemas do you use for rich metadata description?''),
    (''FIP-Question-R1.1-D'', ''R1.1'', ''Data'', ''Which license do you use for datasets?''),
    (''FIP-Question-R1.1-MD'', ''R1.1'', ''Metadata'', ''Which license do you use for metadata?''),
    (''FIP-Question-R1.2-D'', ''R1.2'', ''Data'', ''Which metadata schemas do you use for provenance?''),
    (''FIP-Question-R1.2-MD'', ''R1.2'', ''Metadata'', ''Which metadata schemas do you use for metadata provenance?''),
    (''FIP-Question-R1.3-D'', ''R1.3'', ''Data'', ''Which community-endorsed standards do you follow for data?''),
    (''FIP-Question-R1.3-MD'', ''R1.3'', ''Metadata'', ''Which community-endorsed standards do you follow for metadata?'')]"

text \<open>
  The JSON export in its fixed shape. A key of a dict that may be absent is an option
  (\<open>None\<close>: the key is absent); \<open>isinstance(..., dict)\<close> is a case distinction. An
  absent \<open>path\<close> reads as the empty string, an absent \<open>answer\<close> or \<open>items\<close> as no
  items.
\<close>

record item_dict =
  i_label :: "pyval option"
  i_name :: "pyval option"
  i_id :: "pyval option"
  i_uri :: "pyval option"
  i_url :: "pyval option"

datatype json_item = Item_dict item_dict | Item_other

datatype json_answer = Answer_dict "json_item list" | Answer_other

record json_reply =
  reply_path :: string
  reply_answer :: json_answer

record json_export =
  j_name :: "pyval option"
  j_description :: "pyval option"
  j_version :: "pyval option"
  j_creators :: "pyval option"
  j_community :: "pyval option"
  j_created :: "pyval option"
  j_uuid :: "pyval option"
  j_replies :: "json_reply list"

record json_declaration =
  jd_question_id :: string
  jd_resource_label :: pyval
  jd_resource_uri :: pyval
  jd_resource_type :: string
  jd_principle :: string
  jd_data_type :: string

type_synonym fip_info = "string \<rightharpoonup> pyval"

text \<open>The first entry of \<open>FIP_QUESTIONS\<close> whose lower-cased key occurs in the lower-cased path.\<close>

definition principle_match :: "string \<Rightarrow> (string \<times> string) option" where
  "principle_match question_path =
     (case find (\<lambda>(q_key, principle, dtype, _). str_contains (str_lower q_key) (str_lower question_path))
             FIP_QUESTIONS of
        None \<Rightarrow> None
      | Some (q_key, principle, dtype, _) \<Rightarrow> Some (principle, dtype))"

definition item_declarations :: "string \<Rightarrow> string \<times> string \<Rightarrow> json_item \<Rightarrow> json_declaration list" where
  "item_declarations question_path pm item =
     (case item of
        Item_other \<Rightarrow> []
      | Item_dict d \<Rightarrow>
          [\<lparr>jd_question_id = question_path,
            jd_resource_label =
              pv_or (get_or_none (i_label d))
                (pv_or (get_or_none (i_name d)) (get_or (PStr ''Unknown'') (i_id d))),
            jd_resource_uri =
              pv_or (get_or_none (i_uri d)) (pv_or (get_or_none (i_url d)) (PStr [])),
            jd_resource_type = ''current'',
            jd_principle = fst pm,
            jd_data_type = snd pm\<rparr>])"

definition reply_declarations :: "json_reply \<Rightarrow> json_declaration list" where
  "reply_declarations reply =
     (let question_path = reply_path reply
      in case principle_match question_path of
           None \<Rightarrow> []
         | Some pm \<Rightarrow>
             (case reply_answer reply of
                Answer_other \<Rightarrow> []
              | Answer_dict items \<Rightarrow> concat (map (item_declarations question_path pm) items)))"

definition read_fip_from_json :: "json_export \<Rightarrow> fip_info \<times> json_declaration list" where
  "read_fip_from_json d =
     ([''label'' \<mapsto> get_or (PStr ''Unknown FIP'') (j_name d),
       ''description'' \<mapsto> get_or (PStr []) (j_description d),
       ''version'' \<mapsto> get_or (PStr ''1.0.0'') (j_version d),
       ''creators'' \<mapsto> get_or (PList []) (j_creators d),
       ''declared_by'' \<mapsto> get_or (PStr []) (j_community d),
       ''created'' \<mapsto> get_or (PStr []) (j_created d),
       ''declaration_index'' \<mapsto> PStr [],
       ''wizard_source'' \<mapsto> get_or (PStr []) (j_uuid d)],
      concat (map reply_declarations (j_replies d)))"

definition json_resource_info :: "json_declaration \<Rightarrow> pyval resource_info" where
  "json_resource_info decl =
     \<lparr>ri_label = jd_resource_label decl,
      ri_uri = jd_resource_uri decl,
      ri_type = jd_resource_type decl\<rparr>"

definition organize_json_step :: "json_declaration \<Rightarrow> pyval organized \<Rightarrow> pyval organized" where
  "organize_json_step decl organized =
     (let principle = jd_principle decl;
          dtype = str_lower (jd_data_type decl)
      in if principle \<noteq> [] \<and> principle \<in> dom organized
         then (if dtype = ''data''
               then add_data principle (json_resource_info decl) organized
               else add_metadata principle (json_resource_info decl) organized)
         else organized)"

definition organize_by_principle_from_json :: "json_declaration list \<Rightarrow> pyval organized" where
  "organize_by_principle_from_json declarations =
     fold organize_json_step declarations empty_organized"


section \<open>Quad graphs\<close>

text \<open>
  A parsed graph is the list of its quads in the order in which
  \<open>for context in g.contexts(): for s, p, o in context\<close> visits them; the strings are
  \<open>str(s)\<close>, \<open>str(p)\<close> and \<open>str(o)\<close>, and \<open>q_literal\<close> is \<open>isinstance(o, Literal)\<close>.
\<close>

record quad =
  q_subject :: string
  q_predicate :: string
  q_object :: string
  q_literal :: bool
  q_graph :: string

type_synonym graph = "quad list"


section \<open>Header Extractor\<close>

datatype py_error = KeyError | AttributeError

definition initial_fip_info :: fip_info where
  "initial_fip_info =
     [''label'' \<mapsto> PNone,
      ''description'' \<mapsto> PNone,
      ''version'' \<mapsto> PNone,
      ''declared_by'' \<mapsto> PNone,
      ''declaration_index'' \<mapsto> PNone,
      ''creators'' \<mapsto> PList [],
      ''created'' \<mapsto> PNone,
      ''wizard_source'' \<mapsto> PNone]"

text \<open>\<open>if cond: fip_info[key] = value\<close>\<close>

definition set_field :: "bool \<Rightarrow> string \<Rightarrow> pyval \<Rightarrow> fip_info \<Rightarrow> fip_info" where
  "set_field cond key v info = (if cond then info(key \<mapsto> v) else info)"

text \<open>
  \<open>fip_info["creators"].append(o_str)\<close>: a missing key raises KeyError, a value that is
  not a list has no \<open>append\<close>.
\<close>

definition append_creator :: "string \<Rightarrow> fip_info \<Rightarrow> py_error + fip_info" where
  "append_creator o_str info =
     (case info ''creators'' of
        None \<Rightarrow> Inl KeyError
      | Some (PList cs) \<Rightarrow> Inr (info(''creators'' \<mapsto> PList (cs @ [PStr o_str])))
      | Some _ \<Rightarrow> Inl AttributeError)"

definition header_step :: "quad \<Rightarrow> fip_info \<Rightarrow> py_error + fip_info" where
  "header_step q info =
     (let p_str = q_predicate q;
          o_str = q_object q;
          info1 = set_field (str_contains ''label'' (str_lower p_str)) ''label'' (PStr o_str) info;
          info2 = set_field (str_contains ''description'' (str_lower p_str)) ''description'' (PStr o_str) info1;
          info3 = set_field (str_contains ''version'' (str_lower p_str)) ''version'' (PStr o_str) info2;
          info4 = set_field (str_contains ''declared-by'' (str_lower p_str)) ''declared_by'' (PStr o_str) info3;
          info5 = set_field (str_contains ''declaration-index'' (str_lower p_str)) ''declaration_index'' (PStr o_str) info4
      in case (if str_contains ''creator'' (str_lower p_str) \<and> str_contains ''orcid.org'' o_str
               then append_creator o_str info5 else Inr info5) of
           Inl e \<Rightarrow> Inl e
         | Inr info6 \<Rightarrow>
             Inr (set_field (str_contains ''wasDerivedFrom'' p_str \<and> str_contains ''fip/wizard'' o_str)
                    ''wizard_source'' (PStr o_str)
                   (set_field (str_contains ''created'' (str_lower p_str) \<and> q_literal q)
                      ''created'' (PStr o_str) info6)))"

fun header_loop :: "graph \<Rightarrow> fip_info \<Rightarrow> py_error + fip_info" where
  "header_loop [] info = Inr info"
| "header_loop (q # qs) info =
     (case header_step q info of Inl e \<Rightarrow> Inl e | Inr info' \<Rightarrow> header_loop qs info')"

text \<open>\<open>parse_fip_header\<close> on the graph that \<open>g.parse(filepath, format="trig")\<close> produced.\<close>

definition parse_fip_header :: "graph \<Rightarrow> py_error + fip_info" where
  "parse_fip_header g = header_loop g initial_fip_info"


section \<open>Nanopublication Fetcher\<close>

text \<open>
  The outside world of a run: \<open>http_get\<close> is \<open>requests.get\<close> (it may raise, and the
  network may change between two calls, so a state \<open>'w\<close> is passed through);
  \<open>parse_trig\<close> is \<open>ConjunctiveGraph().parse(data=..., format="trig")\<close>, \<open>None\<close> when
  it raises; \<open>list_of_set xs\<close> is \<open>list(set(xs))\<close>, whose order Python leaves open.
\<close>

datatype http_result = Raised | Response nat string

record 'w env =
  http_get :: "string \<Rightarrow> 'w \<Rightarrow> http_result \<times> 'w"
  parse_trig :: "string \<Rightarrow> graph option"
  list_of_set :: "string list \<Rightarrow> string list"

definition endpoints :: "string \<Rightarrow> string \<Rightarrow> string list" where
  "endpoints uri format_type =
     (let np_id = last (str_split uri ''/'')
      in [uri @ ''.'' @ format_type,
          ''https://np.petapico.org/'' @ np_id @ ''.'' @ format_type,
          ''https://server.np.trustyuri.net/'' @ np_id @ ''.'' @ format_type,
          ''https://w3id.org/np/'' @ np_id @ ''.'' @ format_type])"

text \<open>
  The body of the \<open>try\<close>: \<open>Some g\<close> when it reaches \<open>return g\<close>, \<open>None\<close> when the
  status is not 200 or an exception is caught.
\<close>

definition try_body :: "'w env \<Rightarrow> http_result \<Rightarrow> graph option" where
  "try_body env resp =
     (case resp of
        Raised \<Rightarrow> None
      | Response status_code text \<Rightarrow> if status_code = 200 then parse_trig env text else None)"

text \<open>
  The loop over the endpoints. Besides the result and the world it returns the requests
  it made, each with its outcome, in order.
\<close>

fun try_endpoints ::
  "'w env \<Rightarrow> string list \<Rightarrow> 'w \<Rightarrow> graph option \<times> 'w \<times> (string \<times> http_result) list" where
  "try_endpoints env [] w = (None, w, [])"
| "try_endpoints env (endpoint # rest) w =
     (case http_get env endpoint w of
        (resp, w1) \<Rightarrow>
          (case try_body env resp of
             Some g \<Rightarrow> (Some g, w1, [(endpoint, resp)])
           | None \<Rightarrow>
               (case try_endpoints env rest w1 of
                  (r, w2, tr) \<Rightarrow> (r, w2, (endpoint, resp) # tr))))"

definition fetch_nanopub ::
  "'w env \<Rightarrow> string \<Rightarrow> string \<Rightarrow> 'w \<Rightarrow> graph option \<times> 'w \<times> (string \<times> http_result) list" where
  "fetch_nanopub env uri format_type w = try_endpoints env (endpoints uri format_type) w"


section \<open>Index Resolver\<close>

definition index_predicate_uris :: "string list" where
  "index_predicate_uris =
     [''http://purl.org/nanopub/x/includesElement'',
      ''http://purl.org/nanopub/x/hasElement'',
      ''http://purl.org/nanopub/x/includes'',
      ''https://w3id.org/fair/fip/terms/has-declaration'']"

text \<open>The list \<open>declarations\<close> at the end of the loop (the debug output is not modelled).\<close>

definition index_objects :: "graph \<Rightarrow> string list" where
  "index_objects index_graph =
     map q_object (filter (\<lambda>q. q_predicate q \<in> set index_predicate_uris) index_graph)"

definition extract_declarations_from_index :: "'w env \<Rightarrow> graph \<Rightarrow> string list" where
  "extract_declarations_from_index env index_graph = list_of_set env (index_objects index_graph)"


section \<open>Declaration Parser\<close>

definition initial_declaration :: fip_declaration where
  "initial_declaration =
     \<lparr>question = None, question_id = None, resource_label = None, resource_uri = None,
      resource_type = ''current''\<rparr>"

definition refers_to_question :: string where
  "refers_to_question = ''https://w3id.org/fair/fip/terms/refers-to-question''"

definition declares_current_use_of :: string where
  "declares_current_use_of = ''https://w3id.org/fair/fip/terms/declares-current-use-of''"

definition declares_planned_use_of :: string where
  "declares_planned_use_of = ''https://w3id.org/fair/fip/terms/declares-planned-use-of''"

definition declares_planned_replacement_of :: string where
  "declares_planned_replacement_of =
     ''https://w3id.org/fair/fip/terms/declares-planned-replacement-of''"

text \<open>The \<open>if "FIP-Question-" in o_str: ... elif ...\<close> block.\<close>

definition set_question_id :: "string \<Rightarrow> fip_declaration \<Rightarrow> fip_declaration" where
  "set_question_id o_str declaration' =
     (if str_contains ''FIP-Question-'' o_str
      then declaration'\<lparr>question_id := Some (last (str_split o_str ''FIP-Question-''))\<rparr>
      else if str_contains ''/F'' o_str \<or> str_contains ''/A'' o_str
              \<or> str_contains ''/I'' o_str \<or> str_contains ''/R'' o_str
      then declaration'\<lparr>question_id := Some (last (str_split o_str ''/''))\<rparr>
      else declaration')"

definition question_step :: "quad \<Rightarrow> fip_declaration \<Rightarrow> fip_declaration" where
  "question_step q declaration' =
     (if str_contains ''refers-to-question'' (str_lower (q_predicate q))
         \<or> q_predicate q = refers_to_question
      then set_question_id (q_object q) (declaration'\<lparr>question := Some (q_object q)\<rparr>)
      else declaration')"

definition resource_step :: "string \<Rightarrow> string \<Rightarrow> string \<Rightarrow> quad \<Rightarrow> fip_declaration \<Rightarrow> fip_declaration" where
  "resource_step pat uri_const rtype q declaration' =
     (if str_contains pat (str_lower (q_predicate q)) \<or> q_predicate q = uri_const
      then declaration'\<lparr>resource_uri := Some (q_object q), resource_type := rtype\<rparr>
      else declaration')"

text \<open>One iteration of the loop over the quads: the labels collected so far and the record.\<close>

definition declaration_step ::
  "quad \<Rightarrow> (string \<rightharpoonup> string) \<times> fip_declaration \<Rightarrow> (string \<rightharpoonup> string) \<times> fip_declaration" where
  "declaration_step q st =
     (case st of
        (labels, declaration') \<Rightarrow>
          (if str_contains ''label'' (str_lower (q_predicate q))
           then labels(q_subject q \<mapsto> q_object q) else labels,
           resource_step ''declares-planned-replacement-of'' declares_planned_replacement_of
               ''replacement'' q
             (resource_step ''declares-planned-use-of'' declares_planned_use_of ''planned'' q
               (resource_step ''declares-current-use-of'' declares_current_use_of ''current'' q
                 (question_step q declaration')))))"

definition label_text :: "string \<Rightarrow> string" where
  "label_text s = replace_char (CHR ''_'') (CHR '' '') (replace_char (CHR ''-'') (CHR '' '') s)"

text \<open>The label lookup after the loop.\<close>

definition resolve_label :: "(string \<rightharpoonup> string) \<times> fip_declaration \<Rightarrow> fip_declaration" where
  "resolve_label st =
     (case st of
        (labels, declaration') \<Rightarrow>
          (if truthy (resource_uri declaration')
           then (let uri = the (resource_uri declaration')
                 in case labels uri of
                      Some l \<Rightarrow> declaration'\<lparr>resource_label := Some l\<rparr>
                    | None \<Rightarrow>
                        (if str_contains ''#'' uri
                         then declaration'\<lparr>resource_label := Some (label_text (last (str_split uri ''#'')))\<rparr>
                         else if str_contains ''/'' uri
                         then (let last_part = last (str_split uri ''/'')
                               in if last_part \<noteq> []
                                  then declaration'\<lparr>resource_label := Some (label_text last_part)\<rparr>
                                  else declaration')
                         else declaration'))
           else declaration'))"

definition parse_declaration :: "graph \<Rightarrow> fip_declaration" where
  "parse_declaration decl_graph =
     resolve_label (fold declaration_step decl_graph (Map.empty, initial_declaration))"


section \<open>The file/network pipeline\<close>

text \<open>
  \<open>if index_graph:\<close> and \<open>if decl_graph:\<close>: a graph is falsy when it is \<open>None\<close> and
  also when it holds no triple (rdflib graphs define \<open>__len__\<close>).
\<close>

definition graph_truthy :: "graph option \<Rightarrow> bool" where
  "graph_truthy g = (case g of None \<Rightarrow> False | Some qs \<Rightarrow> qs \<noteq> [])"

text \<open>
  The loop of step 4 over the URIs it is given: the declarations kept, the world, and for
  each URI the requests made for it.
\<close>

fun fetch_declarations ::
  "'w env \<Rightarrow> string list \<Rightarrow> 'w \<Rightarrow>
     fip_declaration list \<times> 'w \<times> (string \<times> (string \<times> http_result) list) list" where
  "fetch_declarations env [] w = ([], w, [])"
| "fetch_declarations env (decl_uri # rest) w =
     (case fetch_nanopub env decl_uri ''trig'' w of
        (decl_graph, w1, requests) \<Rightarrow>
          (case fetch_declarations env rest w1 of
             (declarations, w2, fetched) \<Rightarrow>
               ((if graph_truthy decl_graph \<and> truthy (question_id (parse_declaration (the decl_graph)))
                 then [parse_declaration (the decl_graph)] else []) @ declarations,
                w2, (decl_uri, requests) # fetched)))"

text \<open>Steps 2 to 4 for a declaration index URI.\<close>

definition fetch_from_index ::
  "'w env \<Rightarrow> string \<Rightarrow> 'w \<Rightarrow>
     fip_declaration list \<times> 'w \<times> (string \<times> (string \<times> http_result) list) list" where
  "fetch_from_index env index_uri w =
     (case fetch_nanopub env index_uri ''trig'' w of
        (index_graph, w1, requests) \<Rightarrow>
          (if graph_truthy index_graph
           then (let decl_uris = extract_declarations_from_index env (the index_graph)
                 in fetch_declarations env (take 50 decl_uris) w1)
           else ([], w1, [])))"

record 'w fip_run =
  run_fip_info :: fip_info
  run_declarations :: "fip_declaration list"
  run_organized :: "string option organized"
  run_fetched :: "(string \<times> (string \<times> http_result) list) list"
  run_world :: 'w

text \<open>
  \<open>read_fip_from_file\<close> on the parsed header file. Besides the returned pair it yields
  the table handed to the report, the declaration URIs it fetched and the world it leaves.
  Console output is not modelled.
\<close>

definition read_fip_from_file :: "'w env \<Rightarrow> graph \<Rightarrow> bool \<Rightarrow> 'w \<Rightarrow> py_error + 'w fip_run" where
  "read_fip_from_file env header_graph fetch_remote w =
     (case parse_fip_header header_graph of
        Inl e \<Rightarrow> Inl e
      | Inr fip_info' \<Rightarrow>
          (let index = get_or_none (fip_info' ''declaration_index'')
           in if fetch_remote \<and> py_truthy index
              then (case index of
                      PStr index_uri \<Rightarrow>
                        (case fetch_from_index env index_uri w of
                           (declarations, w', fetched) \<Rightarrow>
                             Inr \<lparr>run_fip_info = fip_info', run_declarations = declarations,
                                  run_organized = organize_by_principle declarations,
                                  run_fetched = fetched, run_world = w'\<rparr>)
                    | _ \<Rightarrow> Inl AttributeError)
              else Inr \<lparr>run_fip_info = fip_info', run_declarations = [],
                        run_organized = organize_by_principle [],
                        run_fetched = [], run_world = w\<rparr>))"


section \<open>Facts about the string operations\<close>

lemma str_contains_iff: "str_contains sub s \<longleftrightarrow> (\<exists>a b. s = a @ sub @ b)"
proof (induction s)
  case Nil
  show ?case by auto
next
  case (Cons c cs)
  show ?case
  proof
    assume "str_contains sub (c # cs)"
    then consider "prefix sub (c # cs)" | "str_contains sub cs" by auto
    then show "\<exists>a b. c # cs = a @ sub @ b"
    proof cases
      case 1
      then obtain b where "c # cs = sub @ b" by (auto simp: prefix_def)
      then have "c # cs = [] @ sub @ b" by simp
      then show ?thesis by blast
    next
      case 2
      with Cons.IH obtain a b where "cs = a @ sub @ b" by blast
      then have "c # cs = (c # a) @ sub @ b" by simp
      then show ?thesis by blast
    qed
  next
    assume "\<exists>a b. c # cs = a @ sub @ b"
    then obtain a b where ab: "c # cs = a @ sub @ b" by blast
    show "str_contains sub (c # cs)"
    proof (cases a)
      case Nil
      with ab have "prefix sub (c # cs)" by (simp add: prefix_def)
      then show ?thesis by simp
    next
      case (Cons x a')
      with ab have "cs = a' @ sub @ b" by simp
      with Cons.IH have "str_contains sub cs" by blast
      then show ?thesis by simp
    qed
  qed
qed

lemma str_contains_char: "str_contains [c] s \<longleftrightarrow> c \<in> set s"
  by (induction s) auto

lemma rsplit1_decomp:
  assumes "c \<in> set s"
  shows "\<exists>p t. rsplit1 s c = [p, t] \<and> s = p @ c # t \<and> c \<notin> set t"
proof -
  let ?P = "\<lambda>x. x \<noteq> c"
  let ?t = "takeWhile ?P (rev s)"
  let ?d = "dropWhile ?P (rev s)"
  from assms have "c \<in> set (rev s)" by simp
  then have dne: "?d \<noteq> []" by (auto simp: dropWhile_eq_Nil_conv)
  then have "\<not> ?P (hd ?d)" by (rule hd_dropWhile)
  with dne have d: "?d = c # tl ?d" by (cases ?d) auto
  have "rev s = ?t @ ?d" by simp
  with d have "rev s = ?t @ c # tl ?d" by simp
  then have "rev (rev s) = rev (?t @ c # tl ?d)" by (rule arg_cong)
  then have s: "s = rev (tl ?d) @ c # rev ?t" by simp
  have "c \<notin> set ?t" by (auto dest: set_takeWhileD)
  then have nt: "c \<notin> set (rev ?t)" by simp
  from assms have "rsplit1 s c = [rev (tl ?d), rev ?t]" by (simp add: rsplit1_def)
  with s nt show ?thesis by blast
qed

lemma question_id_parts_dash:
  assumes "CHR ''-'' \<in> set q_id"
  shows "\<exists>p t. question_id_parts q_id = (p, t) \<and> q_id = p @ ''-'' @ t \<and> CHR ''-'' \<notin> set t"
proof -
  from rsplit1_decomp [OF assms] obtain p t
    where "rsplit1 q_id (CHR ''-'') = [p, t]" "q_id = p @ CHR ''-'' # t" "CHR ''-'' \<notin> set t"
    by blast
  moreover from assms have "str_contains ''-'' q_id" by (simp add: str_contains_char)
  ultimately show ?thesis by (simp add: question_id_parts_def)
qed

lemma question_id_parts_no_dash:
  "CHR ''-'' \<notin> set q_id \<Longrightarrow> question_id_parts q_id = (q_id, ''D'')"
  by (simp add: question_id_parts_def str_contains_char)


section \<open>Facts about the organizer\<close>

lemma dom_empty_organized: "dom (empty_organized :: 'v organized) = set principle_keys"
  by (auto simp: empty_organized_def principle_keys_def)

lemma dom_add_metadata: "dom (add_metadata p i organized) = dom organized"
  by (auto simp: add_metadata_def split: option.splits)

lemma dom_add_data: "dom (add_data p i organized) = dom organized"
  by (auto simp: add_data_def split: option.splits)

lemma dom_organize_step: "dom (organize_step decl organized) = dom organized"
  by (simp add: organize_step_def Let_def dom_add_metadata dom_add_data split: prod.splits)

lemma dom_fold_organize_step: "dom (fold organize_step ds organized) = dom organized"
  by (induction ds arbitrary: organized) (simp_all add: dom_organize_step)

lemma dom_organize_by_principle: "dom (organize_by_principle ds) = set principle_keys"
  by (simp add: organize_by_principle_def dom_fold_organize_step dom_empty_organized)

lemma organize_by_principle_snoc:
  "organize_by_principle (ds @ [d]) = organize_step d (organize_by_principle ds)"
  by (simp add: organize_by_principle_def)

lemma rsplit1_last:
  assumes "c \<notin> set t"
  shows "rsplit1 (p @ c # t) c = [p, t]"
proof -
  have ne: "\<And>x. x \<in> set (rev t) \<Longrightarrow> x \<noteq> c" using assms by auto
  have tw: "takeWhile (\<lambda>x. x \<noteq> c) (rev t @ c # rev p) = rev t"
    using takeWhile_append2 [of "rev t" "\<lambda>x. x \<noteq> c" "c # rev p"] ne by simp
  have dw: "dropWhile (\<lambda>x. x \<noteq> c) (rev t @ c # rev p) = c # rev p"
    using dropWhile_append2 [of "rev t" "\<lambda>x. x \<noteq> c" "c # rev p"] ne by simp
  show ?thesis by (simp add: rsplit1_def tw dw)
qed

lemma question_id_parts_last_dash:
  assumes "CHR ''-'' \<notin> set t"
  shows "question_id_parts (p @ ''-'' @ t) = (p, t)"
  using rsplit1_last [OF assms, of p]
  by (simp add: question_id_parts_def str_contains_char)

lemma organize_step_known:
  assumes "question_id d = Some q_id" and "q_id \<noteq> []" and "question_id_parts q_id = (p, t)"
    and "organized p = Some b"
  shows "organize_step d organized =
           organized(p \<mapsto> (if str_upper t = ''MD''
                               then b\<lparr>metadata := metadata b @ [decl_resource_info d]\<rparr>
                               else b\<lparr>data := data b @ [decl_resource_info d]\<rparr>))"
  using assms
  by (auto simp: organize_step_def truthy_def add_metadata_def add_data_def)

lemma organize_step_unknown:
  assumes "question_id d = Some q_id" and "fst (question_id_parts q_id) \<notin> dom organized"
  shows "organize_step d organized = organized"
  using assms by (auto simp: organize_step_def split: prod.splits)

lemma organize_by_principle_Some:
  assumes "p \<in> set principle_keys"
  shows "\<exists>b. organize_by_principle ds p = Some b"
proof -
  from assms have "p \<in> dom (organize_by_principle ds)" by (simp add: dom_organize_by_principle)
  then show ?thesis by blast
qed

lemma upper_MD: "str_upper ''MD'' = ''MD''"
  by code_simp

lemma upper_D: "str_upper ''D'' = ''D''"
  by code_simp

lemma empty_organized_lookup:
  "k \<in> set principle_keys \<Longrightarrow> (empty_organized :: 'v organized) k = Some \<lparr>data = [], metadata = []\<rparr>"
  by (auto simp: empty_organized_def principle_keys_def)

lemma split_acc_not_Nil: "split_acc sep acc s \<noteq> []"
  by (induction sep acc s rule: split_acc.induct) auto

lemma prefix_drop_eq:
  assumes "prefix sep (c # cs)" and "sep \<noteq> []"
  shows "c # cs = sep @ drop (length sep - 1) cs"
proof -
  from assms(1) obtain r where r: "c # cs = sep @ r" by (auto simp: prefix_def)
  with assms(2) obtain sep' where sep': "sep = c # sep'" by (cases sep) auto
  with r have "cs = sep' @ r" by simp
  then have "drop (length sep - 1) cs = r" by (simp add: sep')
  with r show ?thesis by simp
qed

lemma split_acc_last:
  assumes "sep \<noteq> []"
  shows "(\<not> str_contains sep s \<longrightarrow> split_acc sep acc s = [acc @ s])
       \<and> (str_contains sep s \<longrightarrow>
            (\<exists>a b. s = a @ sep @ b \<and> \<not> str_contains sep b \<and> last (split_acc sep acc s) = b))"
  using assms
proof (induction sep acc s rule: split_acc.induct)
  case (1 sep acc)
  then show ?case by simp
next
  case (2 sep acc c cs)
  show ?case
  proof (cases "prefix sep (c # cs)")
    case True
    let ?rest = "drop (length sep - 1) cs"
    have eq: "c # cs = sep @ ?rest" using True "2.prems" by (rule prefix_drop_eq)
    have res: "split_acc sep acc (c # cs) = acc # split_acc sep [] ?rest" using True by simp
    then have lst: "last (split_acc sep acc (c # cs)) = last (split_acc sep [] ?rest)"
      by (simp add: split_acc_not_Nil)
    have cont: "str_contains sep (c # cs)" using True by simp
    have IH: "(\<not> str_contains sep ?rest \<longrightarrow> split_acc sep [] ?rest = [[] @ ?rest])
       \<and> (str_contains sep ?rest \<longrightarrow>
            (\<exists>a b. ?rest = a @ sep @ b \<and> \<not> str_contains sep b \<and> last (split_acc sep [] ?rest) = b))"
      using "2.IH"(1) [OF True "2.prems"] .
    have "\<exists>a b. c # cs = a @ sep @ b \<and> \<not> str_contains sep b \<and> last (split_acc sep acc (c # cs)) = b"
    proof (cases "str_contains sep ?rest")
      case False
      with IH have "last (split_acc sep [] ?rest) = ?rest" by simp
      with lst eq False have "c # cs = [] @ sep @ ?rest \<and> \<not> str_contains sep ?rest
          \<and> last (split_acc sep acc (c # cs)) = ?rest" by simp
      then show ?thesis by blast
    next
      case True
      with IH obtain a b where ab: "?rest = a @ sep @ b" "\<not> str_contains sep b"
        "last (split_acc sep [] ?rest) = b" by blast
      from eq ab(1) have "c # cs = (sep @ a) @ sep @ b" by simp
      with ab(2,3) lst show ?thesis by metis
    qed
    with cont show ?thesis by blast
  next
    case False
    then have res: "split_acc sep acc (c # cs) = split_acc sep (acc @ [c]) cs" by simp
    have cont: "str_contains sep (c # cs) = str_contains sep cs" using False by simp
    have IH: "(\<not> str_contains sep cs \<longrightarrow> split_acc sep (acc @ [c]) cs = [(acc @ [c]) @ cs])
       \<and> (str_contains sep cs \<longrightarrow>
            (\<exists>a b. cs = a @ sep @ b \<and> \<not> str_contains sep b \<and> last (split_acc sep (acc @ [c]) cs) = b))"
      using "2.IH"(2) [OF False "2.prems"] .
    show ?thesis
    proof (intro conjI impI)
      assume "\<not> str_contains sep (c # cs)"
      with cont IH res show "split_acc sep acc (c # cs) = [acc @ c # cs]" by simp
    next
      assume "str_contains sep (c # cs)"
      with cont IH obtain a b where ab: "cs = a @ sep @ b" "\<not> str_contains sep b"
        "last (split_acc sep (acc @ [c]) cs) = b" by blast
      then have "c # cs = (c # a) @ sep @ b" by simp
      with ab(2,3) res show "\<exists>a b. c # cs = a @ sep @ b \<and> \<not> str_contains sep b
          \<and> last (split_acc sep acc (c # cs)) = b" by metis
    qed
  qed
qed

text \<open>A separator whose first character does not occur in it again cannot overlap itself.\<close>

lemma last_occurrence:
  assumes sep: "sep = h # r" "h \<notin> set r"
    and s: "s = a @ sep @ b" and nb: "\<not> str_contains sep b"
    and s': "s = a' @ sep @ b'"
  shows "length a' \<le> length a"
proof (rule ccontr)
  assume "\<not> length a' \<le> length a"
  then have lt: "length a < length a'" by simp
  from s s' have "a @ (sep @ b) = a' @ (sep @ b')" by simp
  then obtain u where u: "(a = a' @ u \<and> u @ (sep @ b) = sep @ b') \<or> (a @ u = a' \<and> sep @ b = u @ (sep @ b'))"
    unfolding append_eq_append_conv2 by blast
  with lt have x: "a' = a @ u" "sep @ b = u @ (sep @ b')" by auto
  from lt x(1) have xne: "u \<noteq> []" by auto
  from x(2) obtain v where v: "(sep = u @ v \<and> v @ b = sep @ b') \<or> (sep @ v = u \<and> b = v @ (sep @ b'))"
    unfolding append_eq_append_conv2 by blast
  then show False
  proof
    assume c1: "sep = u @ v \<and> v @ b = sep @ b'"
    show False
    proof (cases v)
      case Nil
      with c1 have "b = [] @ sep @ b'" by simp
      then have "str_contains sep b" unfolding str_contains_iff by blast
      with nb show False ..
    next
      case (Cons y v')
      with c1 sep(1) have "y = h" by simp
      with Cons have hz: "h \<in> set v" by simp
      from xne obtain z u' where "u = z # u'" by (cases u) auto
      with c1 sep(1) have "r = u' @ v" by simp
      with hz sep(2) show False by simp
    qed
  next
    assume "sep @ v = u \<and> b = v @ (sep @ b')"
    then have "b = v @ sep @ b'" by simp
    then have "str_contains sep b" unfolding str_contains_iff by blast
    with nb show False ..
  qed
qed


section \<open>Claims about the Principle Organizer\<close>

text \<open>
  C1. A declaration whose question id is \<open>p-t\<close>, cut at its last \<open>-\<close> (so \<open>t\<close> has no
  \<open>-\<close>; every id containing a \<open>-\<close> has exactly one such cut, see \<open>rsplit1_decomp\<close>), is
  appended to the bucket of the principle \<open>p\<close>: to its metadata list when the upper-cased
  suffix \<open>t\<close> is \<open>MD\<close>, otherwise to its data list. The buckets are those of the 15
  keys; a prefix \<open>p\<close> that is none of them has no bucket and the table stays as it is.
  The witness runs \<open>A1.1-MD\<close> (bucket A1.1, metadata) and \<open>R1.2-D\<close> (bucket R1.2, data).
\<close>

theorem organize_by_principle_last_dash:
  assumes "question_id d = Some (p @ ''-'' @ t)" and "CHR ''-'' \<notin> set t"
  shows "(p \<in> set principle_keys \<longrightarrow>
            (\<exists>b. organize_by_principle ds p = Some b \<and>
                 organize_by_principle (ds @ [d]) =
                   (organize_by_principle ds)
                     (p \<mapsto> (if str_upper t = ''MD''
                              then b\<lparr>metadata := metadata b @ [decl_resource_info d]\<rparr>
                              else b\<lparr>data := data b @ [decl_resource_info d]\<rparr>))))
       \<and> (p \<notin> set principle_keys \<longrightarrow>
            organize_by_principle (ds @ [d]) = organize_by_principle ds)"
proof (intro conjI impI)
  have parts: "question_id_parts (p @ ''-'' @ t) = (p, t)"
    using assms(2) by (rule question_id_parts_last_dash)
  {
    assume "p \<in> set principle_keys"
    then obtain b where b: "organize_by_principle ds p = Some b"
      using organize_by_principle_Some by blast
    have "organize_by_principle (ds @ [d]) =
            (organize_by_principle ds)
              (p \<mapsto> (if str_upper t = ''MD''
                       then b\<lparr>metadata := metadata b @ [decl_resource_info d]\<rparr>
                       else b\<lparr>data := data b @ [decl_resource_info d]\<rparr>))"
      unfolding organize_by_principle_snoc
      using organize_step_known [of d "p @ ''-'' @ t" p t "organize_by_principle ds" b]
        assms(1) parts b
      by simp
    with b show "\<exists>b. organize_by_principle ds p = Some b \<and>
                 organize_by_principle (ds @ [d]) =
                   (organize_by_principle ds)
                     (p \<mapsto> (if str_upper t = ''MD''
                              then b\<lparr>metadata := metadata b @ [decl_resource_info d]\<rparr>
                              else b\<lparr>data := data b @ [decl_resource_info d]\<rparr>))"
      by blast
  }
  {
    assume "p \<notin> set principle_keys"
    then have "fst (question_id_parts (p @ ''-'' @ t)) \<notin> dom (organize_by_principle ds)"
      using parts by (simp add: dom_organize_by_principle)
    then show "organize_by_principle (ds @ [d]) = organize_by_principle ds"
      unfolding organize_by_principle_snoc
      by (rule organize_step_unknown [OF assms(1)])
  }
qed

theorem organize_by_principle_last_dash_witness:
  "question_id \<lparr>question = None, question_id = Some (''A1.1'' @ ''-'' @ ''MD''),
        resource_label = Some ''HTTPS'', resource_uri = Some ''https://example.org/https'',
        resource_type = ''current''\<rparr> = Some (''A1.1'' @ ''-'' @ ''MD'')
   \<and> CHR ''-'' \<notin> set ''MD''
   \<and> ''A1.1'' \<in> set principle_keys
   \<and> organize_by_principle ([] @ [\<lparr>question = None, question_id = Some (''A1.1'' @ ''-'' @ ''MD''),
        resource_label = Some ''HTTPS'', resource_uri = Some ''https://example.org/https'',
        resource_type = ''current''\<rparr>]) ''A1.1''
      = Some \<lparr>data = [],
              metadata = [\<lparr>ri_label = Some ''HTTPS'', ri_uri = Some ''https://example.org/https'',
                           ri_type = ''current''\<rparr>]\<rparr>
   \<and> question_id \<lparr>question = None, question_id = Some (''R1.2'' @ ''-'' @ ''D''),
        resource_label = None, resource_uri = Some ''https://example.org/prov'',
        resource_type = ''planned''\<rparr> = Some (''R1.2'' @ ''-'' @ ''D'')
   \<and> CHR ''-'' \<notin> set ''D''
   \<and> ''R1.2'' \<in> set principle_keys
   \<and> organize_by_principle ([] @ [\<lparr>question = None, question_id = Some (''R1.2'' @ ''-'' @ ''D''),
        resource_label = None, resource_uri = Some ''https://example.org/prov'',
        resource_type = ''planned''\<rparr>]) ''R1.2''
      = Some \<lparr>data = [\<lparr>ri_label = Some ''https://example.org/prov'',
                       ri_uri = Some ''https://example.org/prov'', ri_type = ''planned''\<rparr>],
              metadata = []\<rparr>
   \<and> ''X9'' \<notin> set principle_keys
   \<and> organize_by_principle ([] @ [\<lparr>question = None, question_id = Some (''X9'' @ ''-'' @ ''D''),
        resource_label = None, resource_uri = None, resource_type = ''current''\<rparr>])
      = organize_by_principle []"
  using organize_by_principle_last_dash [of
      "\<lparr>question = None, question_id = Some (''A1.1'' @ ''-'' @ ''MD''),
        resource_label = Some ''HTTPS'', resource_uri = Some ''https://example.org/https'',
        resource_type = ''current''\<rparr>" "''A1.1''" "''MD''" "[]"]
    organize_by_principle_last_dash [of
      "\<lparr>question = None, question_id = Some (''R1.2'' @ ''-'' @ ''D''),
        resource_label = None, resource_uri = Some ''https://example.org/prov'',
        resource_type = ''planned''\<rparr>" "''R1.2''" "''D''" "[]"]
    organize_by_principle_last_dash [of
      "\<lparr>question = None, question_id = Some (''X9'' @ ''-'' @ ''D''),
        resource_label = None, resource_uri = None, resource_type = ''current''\<rparr>"
      "''X9''" "''D''" "[]"]
  by (simp add: principle_keys_def upper_MD upper_D organize_by_principle_def
        empty_organized_lookup decl_resource_info_def py_or_def truthy_def)

lemma str_lower_append: "str_lower (a @ b) = str_lower a @ str_lower b"
  by (simp add: str_lower_def)

lemma str_contains_lower:
  assumes "str_contains sub s" and "str_lower sub = sub"
  shows "str_contains sub (str_lower s)"
proof -
  from assms(1) obtain a b where "s = a @ sub @ b" unfolding str_contains_iff by blast
  then have "str_lower s = str_lower a @ sub @ str_lower b"
    by (simp add: str_lower_append assms(2))
  then show ?thesis unfolding str_contains_iff by blast
qed

lemma lower_refers_to_question: "str_lower ''refers-to-question'' = ''refers-to-question''"
  by code_simp

lemma last_split_marker:
  assumes "str_contains ''FIP-Question-'' s"
  shows "\<exists>a b. s = a @ ''FIP-Question-'' @ b \<and> \<not> str_contains ''FIP-Question-'' b
            \<and> last (str_split s ''FIP-Question-'') = b"
proof -
  have ne: "''FIP-Question-'' \<noteq> []" by simp
  from split_acc_last [OF ne, of s "[]"] assms show ?thesis
    unfolding str_split_def by blast
qed

lemma marker_last_occurrence:
  assumes "s = a @ ''FIP-Question-'' @ b" and "\<not> str_contains ''FIP-Question-'' b"
    and "s = a' @ ''FIP-Question-'' @ b'"
  shows "length a' \<le> length a"
proof -
  have 1: "''FIP-Question-'' = CHR ''F'' # ''IP-Question-''" by simp
  have 2: "CHR ''F'' \<notin> set ''IP-Question-''" by simp
  show ?thesis by (rule last_occurrence [OF 1 2 assms])
qed

lemma question_id_resource_step [simp]:
  "question_id (resource_step pat u t q d) = question_id d"
  by (simp add: resource_step_def)

lemma question_id_resolve_label [simp]:
  "question_id (resolve_label (labels, d)) = question_id d"
  by (simp add: resolve_label_def Let_def split: option.splits)

lemma question_id_declaration_step:
  "question_id (snd (declaration_step q st)) = question_id (question_step q (snd st))"
  by (cases st) (simp add: declaration_step_def)

lemma question_step_other:
  assumes "\<not> (str_contains ''refers-to-question'' (str_lower (q_predicate q))
              \<or> q_predicate q = refers_to_question)"
  shows "question_step q d = d"
  using assms by (simp add: question_step_def)

lemma fold_declaration_step_other:
  assumes "\<forall>r\<in>set post. \<not> (str_contains ''refers-to-question'' (str_lower (q_predicate r))
              \<or> q_predicate r = refers_to_question)"
  shows "question_id (snd (fold declaration_step post st)) = question_id (snd st)"
  using assms
proof (induction post arbitrary: st)
  case Nil
  show ?case by simp
next
  case (Cons r post)
  then have "question_id (snd (fold declaration_step post (declaration_step r st)))
               = question_id (snd (declaration_step r st))" by simp
  also have "\<dots> = question_id (question_step r (snd st))" by (rule question_id_declaration_step)
  also have "\<dots> = question_id (snd st)" using Cons.prems by (simp add: question_step_other)
  finally show ?case by simp
qed

lemma question_id_parse_declaration:
  assumes "\<forall>r\<in>set post. \<not> (str_contains ''refers-to-question'' (str_lower (q_predicate r))
              \<or> q_predicate r = refers_to_question)"
  shows "question_id (parse_declaration (pre @ q # post))
           = question_id (question_step q (snd (fold declaration_step pre (Map.empty, initial_declaration))))"
proof -
  let ?st = "fold declaration_step pre (Map.empty, initial_declaration)"
  have "question_id (parse_declaration (pre @ q # post))
          = question_id (snd (fold declaration_step post (declaration_step q ?st)))"
    by (cases "fold declaration_step post (declaration_step q ?st)")
      (simp add: parse_declaration_def)
  also have "\<dots> = question_id (snd (declaration_step q ?st))"
    using assms by (rule fold_declaration_step_other)
  also have "\<dots> = question_id (question_step q (snd ?st))" by (rule question_id_declaration_step)
  finally show ?thesis .
qed


lemma question_step_marker:
  assumes "str_contains ''refers-to-question'' (q_predicate q)"
    and "str_contains ''FIP-Question-'' (q_object q)"
  shows "question_id (question_step q d) = Some (last (str_split (q_object q) ''FIP-Question-''))"
proof -
  have "str_contains ''refers-to-question'' (str_lower (q_predicate q))"
    using assms(1) lower_refers_to_question by (rule str_contains_lower)
  then show ?thesis using assms(2) by (simp add: question_step_def set_question_id_def)
qed

lemma no_marker_in_F1_D: "\<not> str_contains ''FIP-Question-'' ''F1-D''"
  by simp

section \<open>Claims about the Declaration Parser\<close>

text \<open>
  C2. Let \<open>q\<close> be a quad whose predicate contains \<open>refers-to-question\<close> and whose object
  contains the marker \<open>FIP-Question-\<close>, and let no quad visited after \<open>q\<close> refer to a
  question (a later one would overwrite the field). Then the question id of the parsed
  declaration is the part of the object after the last occurrence of the marker: the
  object is \<open>a @ marker @ qid\<close> and no occurrence of the marker starts further right. In
  particular an object ending in \<open>FIP-Question-F1-D\<close> gives the question id \<open>F1-D\<close>.
\<close>

theorem parse_declaration_question_id_marker:
  assumes "str_contains ''refers-to-question'' (q_predicate q)"
    and "str_contains ''FIP-Question-'' (q_object q)"
    and "\<forall>r\<in>set post. \<not> (str_contains ''refers-to-question'' (str_lower (q_predicate r))
              \<or> q_predicate r = refers_to_question)"
  shows "(\<exists>a qid. q_object q = a @ ''FIP-Question-'' @ qid
            \<and> (\<forall>a' b'. q_object q = a' @ ''FIP-Question-'' @ b' \<longrightarrow> length a' \<le> length a)
            \<and> question_id (parse_declaration (pre @ q # post)) = Some qid)
       \<and> (\<forall>x. q_object q = x @ ''FIP-Question-F1-D'' \<longrightarrow>
            question_id (parse_declaration (pre @ q # post)) = Some ''F1-D'')"
proof -
  let ?m = "''FIP-Question-''"
  let ?res = "question_id (parse_declaration (pre @ q # post))"
  have res: "?res = Some (last (str_split (q_object q) ?m))"
    using question_id_parse_declaration [OF assms(3), of pre q]
      question_step_marker [OF assms(1,2)] by simp
  from last_split_marker [OF assms(2)] obtain a b
    where ab: "q_object q = a @ ?m @ b" "\<not> str_contains ?m b"
      "last (str_split (q_object q) ?m) = b" by blast
  have later: "\<forall>a' b'. q_object q = a' @ ?m @ b' \<longrightarrow> length a' \<le> length a"
    using marker_last_occurrence [OF ab(1,2)] by blast
  have first: "\<exists>a qid. q_object q = a @ ?m @ qid
            \<and> (\<forall>a' b'. q_object q = a' @ ?m @ b' \<longrightarrow> length a' \<le> length a)
            \<and> ?res = Some qid"
    using ab(1) later res ab(3) by blast
  have second: "\<forall>x. q_object q = x @ ''FIP-Question-F1-D'' \<longrightarrow> ?res = Some ''F1-D''"
  proof (intro allI impI)
    fix x assume "q_object q = x @ ''FIP-Question-F1-D''"
    then have x: "q_object q = x @ ?m @ ''F1-D''" by simp
    from later x have "length x \<le> length a" by blast
    moreover have "length a \<le> length x"
      by (rule marker_last_occurrence [OF x no_marker_in_F1_D ab(1)])
    ultimately have len: "length a = length x" by simp
    from ab(1) x have "a @ (?m @ b) = x @ (?m @ ''F1-D'')" by simp
    with len have "b = ''F1-D''" by simp
    with res ab(3) show "?res = Some ''F1-D''" by simp
  qed
  from first second show ?thesis by blast
qed

theorem parse_declaration_question_id_marker_witness:
  "str_contains ''refers-to-question''
       (q_predicate \<lparr>q_subject = ''http://example.org/np1#declaration'',
          q_predicate = ''https://w3id.org/fair/fip/terms/refers-to-question'',
          q_object = ''https://w3id.org/fair/fip/terms/FIP-Question-F1-D'',
          q_literal = False, q_graph = ''http://example.org/np1#assertion''\<rparr>)
   \<and> str_contains ''FIP-Question-''
       (q_object \<lparr>q_subject = ''http://example.org/np1#declaration'',
          q_predicate = ''https://w3id.org/fair/fip/terms/refers-to-question'',
          q_object = ''https://w3id.org/fair/fip/terms/FIP-Question-F1-D'',
          q_literal = False, q_graph = ''http://example.org/np1#assertion''\<rparr>)
   \<and> \<not> (str_contains ''refers-to-question''
            (str_lower (q_predicate \<lparr>q_subject = ''http://example.org/np1#declaration'',
               q_predicate = ''https://w3id.org/fair/fip/terms/declares-current-use-of'',
               q_object = ''https://example.org/ark'',
               q_literal = False, q_graph = ''http://example.org/np1#assertion''\<rparr>))
          \<or> q_predicate \<lparr>q_subject = ''http://example.org/np1#declaration'',
               q_predicate = ''https://w3id.org/fair/fip/terms/declares-current-use-of'',
               q_object = ''https://example.org/ark'',
               q_literal = False, q_graph = ''http://example.org/np1#assertion''\<rparr>
             = refers_to_question)
   \<and> question_id (parse_declaration ([] @
        \<lparr>q_subject = ''http://example.org/np1#declaration'',
          q_predicate = ''https://w3id.org/fair/fip/terms/refers-to-question'',
          q_object = ''https://w3id.org/fair/fip/terms/FIP-Question-F1-D'',
          q_literal = False, q_graph = ''http://example.org/np1#assertion''\<rparr>
        # [\<lparr>q_subject = ''http://example.org/np1#declaration'',
          q_predicate = ''https://w3id.org/fair/fip/terms/declares-current-use-of'',
          q_object = ''https://example.org/ark'',
          q_literal = False, q_graph = ''http://example.org/np1#assertion''\<rparr>]))
      = Some ''F1-D''"
proof -
  let ?q = "\<lparr>q_subject = ''http://example.org/np1#declaration'',
          q_predicate = ''https://w3id.org/fair/fip/terms/refers-to-question'',
          q_object = ''https://w3id.org/fair/fip/terms/FIP-Question-F1-D'',
          q_literal = False, q_graph = ''http://example.org/np1#assertion''\<rparr>"
  let ?r = "\<lparr>q_subject = ''http://example.org/np1#declaration'',
          q_predicate = ''https://w3id.org/fair/fip/terms/declares-current-use-of'',
          q_object = ''https://example.org/ark'',
          q_literal = False, q_graph = ''http://example.org/np1#assertion''\<rparr>"
  have h1: "str_contains ''refers-to-question'' (q_predicate ?q)" by simp
  have h2: "str_contains ''FIP-Question-'' (q_object ?q)" by simp
  have low: "str_lower ''https://w3id.org/fair/fip/terms/declares-current-use-of''
      = ''https://w3id.org/fair/fip/terms/declares-current-use-of''" by code_simp
  have h3': "\<not> (str_contains ''refers-to-question'' (str_lower (q_predicate ?r))
              \<or> q_predicate ?r = refers_to_question)"
    by (simp add: low refers_to_question_def)
  then have h3: "\<forall>r\<in>set [?r]. \<not> (str_contains ''refers-to-question'' (str_lower (q_predicate r))
              \<or> q_predicate r = refers_to_question)"
    by simp
  have eq: "q_object ?q = ''https://w3id.org/fair/fip/terms/'' @ ''FIP-Question-F1-D''" by simp
  from parse_declaration_question_id_marker [OF h1 h2 h3, of "[]"] eq
  have "question_id (parse_declaration ([] @ ?q # [?r])) = Some ''F1-D''" by blast
  with h1 h2 h3' show ?thesis by blast
qed

lemma last_split_slash:
  assumes "s = a @ ''/'' @ b" and "CHR ''/'' \<notin> set b"
  shows "last (str_split s ''/'') = b"
proof -
  have ne: "''/'' \<noteq> []" by simp
  have c: "str_contains ''/'' s" unfolding str_contains_iff using assms(1) by blast
  from split_acc_last [OF ne, of s "[]"] c obtain a' b'
    where ab': "s = a' @ ''/'' @ b'" "\<not> str_contains ''/'' b'" "last (str_split s ''/'') = b'"
    unfolding str_split_def by blast
  have nb: "\<not> str_contains ''/'' b" using assms(2) by (simp add: str_contains_char)
  have 1: "''/'' = CHR ''/'' # []" by simp
  have 2: "CHR ''/'' \<notin> set []" by simp
  have "length a \<le> length a'" by (rule last_occurrence [OF 1 2 ab'(1,2) assms(1)])
  moreover have "length a' \<le> length a" by (rule last_occurrence [OF 1 2 assms(1) nb ab'(1)])
  ultimately have len: "length a = length a'" by simp
  from assms(1) ab'(1) have "a @ (''/'' @ b) = a' @ (''/'' @ b')" by simp
  with len have "b = b'" by simp
  with ab'(3) show ?thesis by simp
qed

lemma question_step_fallback:
  assumes "str_contains ''refers-to-question'' (q_predicate q)"
    and "\<not> str_contains ''FIP-Question-'' (q_object q)"
  shows "question_id (question_step q d) =
           (if str_contains ''/F'' (q_object q) \<or> str_contains ''/A'' (q_object q)
               \<or> str_contains ''/I'' (q_object q) \<or> str_contains ''/R'' (q_object q)
            then Some (last (str_split (q_object q) ''/''))
            else question_id d)"
proof -
  have "str_contains ''refers-to-question'' (str_lower (q_predicate q))"
    using assms(1) lower_refers_to_question by (rule str_contains_lower)
  then show ?thesis using assms(2) by (simp add: question_step_def set_question_id_def)
qed

lemma question_id_parse_declaration_snoc:
  "question_id (parse_declaration (pre @ [q]))
     = question_id (question_step q (snd (fold declaration_step pre (Map.empty, initial_declaration))))"
  using question_id_parse_declaration [of "[]" pre q] by simp

lemma question_id_parse_declaration_fold:
  "question_id (parse_declaration pre)
     = question_id (snd (fold declaration_step pre (Map.empty, initial_declaration)))"
  by (cases "fold declaration_step pre (Map.empty, initial_declaration)")
    (simp add: parse_declaration_def)

lemma starts_with_contains:
  assumes "s = a @ ''/'' @ b" and "b = c # b'"
  shows "str_contains [CHR ''/'', c] s"
proof -
  from assms have "s = a @ [CHR ''/'', c] @ b'" by simp
  then show ?thesis unfolding str_contains_iff by blast
qed

text \<open>
  C7 (as amended). Let \<open>q\<close> be a quad whose predicate contains \<open>refers-to-question\<close> and
  whose object does not contain \<open>FIP-Question-\<close>. The parser sets the question id to the
  object's last \<open>/\<close>-separated segment if and only if the object contains one of \<open>/F\<close>,
  \<open>/A\<close>, \<open>/I\<close>, \<open>/R\<close> anywhere; otherwise the question id stays what it was before
  \<open>q\<close>. So whenever the object contains a \<open>/\<close> and its last segment starts with F, A, I or
  R, the question id becomes that segment; it also becomes the last segment when only an
  earlier segment starts with one of these letters.
\<close>

theorem parse_declaration_question_id_fallback:
  assumes "str_contains ''refers-to-question'' (q_predicate q)"
    and "\<not> str_contains ''FIP-Question-'' (q_object q)"
  shows "question_id (parse_declaration (pre @ [q])) =
           (if str_contains ''/F'' (q_object q) \<or> str_contains ''/A'' (q_object q)
               \<or> str_contains ''/I'' (q_object q) \<or> str_contains ''/R'' (q_object q)
            then Some (last (str_split (q_object q) ''/''))
            else question_id (parse_declaration pre))
       \<and> (\<forall>a b. q_object q = a @ ''/'' @ b \<and> CHR ''/'' \<notin> set b \<longrightarrow>
              last (str_split (q_object q) ''/'') = b
              \<and> (b \<noteq> [] \<and> hd b \<in> {CHR ''F'', CHR ''A'', CHR ''I'', CHR ''R''} \<longrightarrow>
                   question_id (parse_declaration (pre @ [q])) = Some b))"
proof -
  let ?o = "q_object q"
  let ?c = "str_contains ''/F'' ?o \<or> str_contains ''/A'' ?o
               \<or> str_contains ''/I'' ?o \<or> str_contains ''/R'' ?o"
  have main: "question_id (parse_declaration (pre @ [q])) =
           (if ?c then Some (last (str_split ?o ''/'')) else question_id (parse_declaration pre))"
    using question_step_fallback [OF assms,
        of "snd (fold declaration_step pre (Map.empty, initial_declaration))"]
    by (simp only: question_id_parse_declaration_snoc [of pre q]
          question_id_parse_declaration_fold [of pre])
  have seg: "\<forall>a b. ?o = a @ ''/'' @ b \<and> CHR ''/'' \<notin> set b \<longrightarrow>
              last (str_split ?o ''/'') = b
              \<and> (b \<noteq> [] \<and> hd b \<in> {CHR ''F'', CHR ''A'', CHR ''I'', CHR ''R''} \<longrightarrow>
                   question_id (parse_declaration (pre @ [q])) = Some b)"
  proof (intro allI impI, elim conjE)
    fix a b assume o: "?o = a @ ''/'' @ b" and nb: "CHR ''/'' \<notin> set b"
    have l: "last (str_split ?o ''/'') = b" using o nb by (rule last_split_slash)
    have "question_id (parse_declaration (pre @ [q])) = Some b"
      if "b \<noteq> []" and h: "hd b \<in> {CHR ''F'', CHR ''A'', CHR ''I'', CHR ''R''}"
    proof -
      from that(1) obtain c b' where b: "b = c # b'" by (cases b) auto
      have "str_contains [CHR ''/'', c] ?o" using o b by (rule starts_with_contains)
      moreover from h b have "c = CHR ''F'' \<or> c = CHR ''A'' \<or> c = CHR ''I'' \<or> c = CHR ''R''"
        by simp
      ultimately have ?c by auto
      with main l show ?thesis by simp
    qed
    with l show "last (str_split ?o ''/'') = b
              \<and> (b \<noteq> [] \<and> hd b \<in> {CHR ''F'', CHR ''A'', CHR ''I'', CHR ''R''} \<longrightarrow>
                   question_id (parse_declaration (pre @ [q])) = Some b)" by blast
  qed
  from main seg show ?thesis by blast
qed

theorem parse_declaration_question_id_fallback_witness:
  "str_contains ''refers-to-question''
       (q_predicate \<lparr>q_subject = ''http://example.org/np2#declaration'',
          q_predicate = ''https://w3id.org/fair/fip/terms/refers-to-question'',
          q_object = ''https://w3id.org/fair/fip/terms/F1-D'',
          q_literal = False, q_graph = ''http://example.org/np2#assertion''\<rparr>)
   \<and> \<not> str_contains ''FIP-Question-''
       (q_object \<lparr>q_subject = ''http://example.org/np2#declaration'',
          q_predicate = ''https://w3id.org/fair/fip/terms/refers-to-question'',
          q_object = ''https://w3id.org/fair/fip/terms/F1-D'',
          q_literal = False, q_graph = ''http://example.org/np2#assertion''\<rparr>)
   \<and> q_object \<lparr>q_subject = ''http://example.org/np2#declaration'',
          q_predicate = ''https://w3id.org/fair/fip/terms/refers-to-question'',
          q_object = ''https://w3id.org/fair/fip/terms/F1-D'',
          q_literal = False, q_graph = ''http://example.org/np2#assertion''\<rparr>
        = ''https://w3id.org/fair/fip/terms'' @ ''/'' @ ''F1-D''
   \<and> CHR ''/'' \<notin> set ''F1-D''
   \<and> ''F1-D'' \<noteq> [] \<and> hd ''F1-D'' \<in> {CHR ''F'', CHR ''A'', CHR ''I'', CHR ''R''}
   \<and> question_id (parse_declaration ([] @
        [\<lparr>q_subject = ''http://example.org/np2#declaration'',
          q_predicate = ''https://w3id.org/fair/fip/terms/refers-to-question'',
          q_object = ''https://w3id.org/fair/fip/terms/F1-D'',
          q_literal = False, q_graph = ''http://example.org/np2#assertion''\<rparr>]))
      = Some ''F1-D''"
proof -
  let ?q = "\<lparr>q_subject = ''http://example.org/np2#declaration'',
          q_predicate = ''https://w3id.org/fair/fip/terms/refers-to-question'',
          q_object = ''https://w3id.org/fair/fip/terms/F1-D'',
          q_literal = False, q_graph = ''http://example.org/np2#assertion''\<rparr>"
  have h1: "str_contains ''refers-to-question'' (q_predicate ?q)" by simp
  have h2: "\<not> str_contains ''FIP-Question-'' (q_object ?q)" by simp
  have eq: "q_object ?q = ''https://w3id.org/fair/fip/terms'' @ ''/'' @ ''F1-D''" by simp
  have nb: "CHR ''/'' \<notin> set ''F1-D''" by simp
  have st: "''F1-D'' \<noteq> [] \<and> hd ''F1-D'' \<in> {CHR ''F'', CHR ''A'', CHR ''I'', CHR ''R''}" by simp
  from parse_declaration_question_id_fallback [OF h1 h2, of "[]"] eq nb st
  have "question_id (parse_declaration ([] @ [?q])) = Some ''F1-D''" by blast
  with h1 h2 eq nb st show ?thesis by blast
qed

text \<open>
  C7 as stated fails in both directions. The object \<open>http://example.org/Foo/bar\<close> has the
  last segment \<open>bar\<close>, which starts with none of F, A, I, R, and yet the question id
  becomes \<open>bar\<close> (the object contains \<open>/F\<close>); the object \<open>F1-D\<close> has the last segment
  \<open>F1-D\<close>, which starts with F, and yet the question id stays unset (there is no \<open>/\<close>).
\<close>

theorem parse_declaration_question_id_fallback_counterexample:
  "str_contains ''refers-to-question'' ''https://w3id.org/fair/fip/terms/refers-to-question''
   \<and> \<not> str_contains ''FIP-Question-'' ''http://example.org/Foo/bar''
   \<and> last (str_split ''http://example.org/Foo/bar'' ''/'') = ''bar''
   \<and> hd ''bar'' \<notin> {CHR ''F'', CHR ''A'', CHR ''I'', CHR ''R''}
   \<and> question_id (parse_declaration
        [\<lparr>q_subject = ''http://example.org/np3#declaration'',
          q_predicate = ''https://w3id.org/fair/fip/terms/refers-to-question'',
          q_object = ''http://example.org/Foo/bar'',
          q_literal = False, q_graph = ''http://example.org/np3#assertion''\<rparr>]) = Some ''bar''
   \<and> \<not> str_contains ''FIP-Question-'' ''F1-D''
   \<and> last (str_split ''F1-D'' ''/'') = ''F1-D''
   \<and> hd ''F1-D'' \<in> {CHR ''F'', CHR ''A'', CHR ''I'', CHR ''R''}
   \<and> question_id (parse_declaration
        [\<lparr>q_subject = ''http://example.org/np3#declaration'',
          q_predicate = ''https://w3id.org/fair/fip/terms/refers-to-question'',
          q_object = ''F1-D'',
          q_literal = True, q_graph = ''http://example.org/np3#assertion''\<rparr>]) = None"
  by code_simp

section \<open>Claims about both organizers\<close>

lemma dom_organize_json_step: "dom (organize_json_step decl organized) = dom organized"
  by (simp add: organize_json_step_def Let_def dom_add_metadata dom_add_data)

lemma dom_fold_organize_json_step: "dom (fold organize_json_step js organized) = dom organized"
  by (induction js arbitrary: organized) (simp_all add: dom_organize_json_step)

lemma dom_organize_by_principle_from_json:
  "dom (organize_by_principle_from_json js) = set principle_keys"
  by (simp add: organize_by_principle_from_json_def dom_fold_organize_json_step dom_empty_organized)

lemma organize_by_principle_from_json_snoc:
  "organize_by_principle_from_json (js @ [j]) = organize_json_step j (organize_by_principle_from_json js)"
  by (simp add: organize_by_principle_from_json_def)

lemma organize_by_principle_from_json_Some:
  assumes "p \<in> set principle_keys"
  shows "\<exists>b. organize_by_principle_from_json js p = Some b"
proof -
  from assms have "p \<in> dom (organize_by_principle_from_json js)"
    by (simp add: dom_organize_by_principle_from_json)
  then show ?thesis by blast
qed

lemma set_principle_keys:
  "set principle_keys =
     {''F1'', ''F2'', ''F3'', ''F4'', ''A1'', ''A1.1'', ''A1.2'', ''A2'',
      ''I1'', ''I2'', ''I3'', ''R1'', ''R1.1'', ''R1.2'', ''R1.3''}"
  by (simp add: principle_keys_def)

lemma distinct_principle_keys: "distinct principle_keys"
  by (simp add: principle_keys_def)

lemma card_principle_keys: "card (set principle_keys) = 15"
  using distinct_card [OF distinct_principle_keys] by (simp add: principle_keys_def)

text \<open>
  C4. For every input, of either organizer, the keys of the returned table are exactly the
  15 fixed principle keys, each mapped to a bucket with a data and a metadata list (both
  empty for the empty input); a record whose principle is none of the 15 keys adds neither
  a key nor an entry.
\<close>

theorem organizer_fixed_keys:
  "dom (organize_by_principle ds) =
     {''F1'', ''F2'', ''F3'', ''F4'', ''A1'', ''A1.1'', ''A1.2'', ''A2'',
      ''I1'', ''I2'', ''I3'', ''R1'', ''R1.1'', ''R1.2'', ''R1.3''}
   \<and> dom (organize_by_principle_from_json js) =
     {''F1'', ''F2'', ''F3'', ''F4'', ''A1'', ''A1.1'', ''A1.2'', ''A2'',
      ''I1'', ''I2'', ''I3'', ''R1'', ''R1.1'', ''R1.2'', ''R1.3''}
   \<and> card (dom (organize_by_principle ds)) = 15
   \<and> card (dom (organize_by_principle_from_json js)) = 15
   \<and> (\<forall>k\<in>dom (organize_by_principle []).
         organize_by_principle [] k = Some \<lparr>data = [], metadata = []\<rparr>
         \<and> organize_by_principle_from_json [] k = Some \<lparr>data = [], metadata = []\<rparr>)
   \<and> (\<forall>q_id. question_id d = Some q_id \<and> fst (question_id_parts q_id) \<notin> set principle_keys
         \<longrightarrow> organize_by_principle (ds @ [d]) = organize_by_principle ds)
   \<and> (jd_principle j \<notin> set principle_keys
         \<longrightarrow> organize_by_principle_from_json (js @ [j]) = organize_by_principle_from_json js)"
proof (intro conjI)
  show "dom (organize_by_principle ds) =
     {''F1'', ''F2'', ''F3'', ''F4'', ''A1'', ''A1.1'', ''A1.2'', ''A2'',
      ''I1'', ''I2'', ''I3'', ''R1'', ''R1.1'', ''R1.2'', ''R1.3''}"
    by (simp only: dom_organize_by_principle set_principle_keys)
  show "dom (organize_by_principle_from_json js) =
     {''F1'', ''F2'', ''F3'', ''F4'', ''A1'', ''A1.1'', ''A1.2'', ''A2'',
      ''I1'', ''I2'', ''I3'', ''R1'', ''R1.1'', ''R1.2'', ''R1.3''}"
    by (simp only: dom_organize_by_principle_from_json set_principle_keys)
  show "card (dom (organize_by_principle ds)) = 15"
    by (simp only: dom_organize_by_principle card_principle_keys)
  show "card (dom (organize_by_principle_from_json js)) = 15"
    by (simp only: dom_organize_by_principle_from_json card_principle_keys)
  show "\<forall>k\<in>dom (organize_by_principle []).
         organize_by_principle [] k = Some \<lparr>data = [], metadata = []\<rparr>
         \<and> organize_by_principle_from_json [] k = Some \<lparr>data = [], metadata = []\<rparr>"
    by (simp add: dom_organize_by_principle)
      (simp add: organize_by_principle_def organize_by_principle_from_json_def
        empty_organized_lookup)
  show "\<forall>q_id. question_id d = Some q_id \<and> fst (question_id_parts q_id) \<notin> set principle_keys
         \<longrightarrow> organize_by_principle (ds @ [d]) = organize_by_principle ds"
  proof (intro allI impI, elim conjE)
    fix q_id assume q: "question_id d = Some q_id"
      and "fst (question_id_parts q_id) \<notin> set principle_keys"
    then have "fst (question_id_parts q_id) \<notin> dom (organize_by_principle ds)"
      by (simp add: dom_organize_by_principle)
    then show "organize_by_principle (ds @ [d]) = organize_by_principle ds"
      unfolding organize_by_principle_snoc by (rule organize_step_unknown [OF q])
  qed
  show "jd_principle j \<notin> set principle_keys
         \<longrightarrow> organize_by_principle_from_json (js @ [j]) = organize_by_principle_from_json js"
    by (simp add: organize_by_principle_from_json_snoc organize_json_step_def
        dom_organize_by_principle_from_json)
qed


theorem organizer_fixed_keys_witness:
  "''F1'' \<in> dom (organize_by_principle [])
   \<and> organize_by_principle [] ''F1'' = Some \<lparr>data = [], metadata = []\<rparr>
   \<and> organize_by_principle_from_json [] ''F1'' = Some \<lparr>data = [], metadata = []\<rparr>
   \<and> question_id \<lparr>question = None, question_id = Some ''X9-D'', resource_label = None,
        resource_uri = Some ''https://example.org/r'', resource_type = ''current''\<rparr> = Some ''X9-D''
   \<and> fst (question_id_parts ''X9-D'') \<notin> set principle_keys
   \<and> organize_by_principle ([] @ [\<lparr>question = None, question_id = Some ''X9-D'',
        resource_label = None, resource_uri = Some ''https://example.org/r'',
        resource_type = ''current''\<rparr>]) = organize_by_principle []
   \<and> jd_principle \<lparr>jd_question_id = ''q'', jd_resource_label = PStr ''r'', jd_resource_uri = PStr [],
        jd_resource_type = ''current'', jd_principle = ''Z9'', jd_data_type = ''Data''\<rparr>
        \<notin> set principle_keys
   \<and> organize_by_principle_from_json ([] @ [\<lparr>jd_question_id = ''q'', jd_resource_label = PStr ''r'',
        jd_resource_uri = PStr [], jd_resource_type = ''current'', jd_principle = ''Z9'',
        jd_data_type = ''Data''\<rparr>]) = organize_by_principle_from_json []"
proof -
  let ?d = "\<lparr>question = None, question_id = Some ''X9-D'', resource_label = None,
        resource_uri = Some ''https://example.org/r'', resource_type = ''current''\<rparr>"
  let ?j = "\<lparr>jd_question_id = ''q'', jd_resource_label = PStr ''r'', jd_resource_uri = PStr [],
        jd_resource_type = ''current'', jd_principle = ''Z9'', jd_data_type = ''Data''\<rparr>"
  have k: "''F1'' \<in> dom (organize_by_principle [])"
    by (simp add: dom_organize_by_principle principle_keys_def)
  have q: "question_id ?d = Some ''X9-D''" by simp
  have p: "fst (question_id_parts ''X9-D'') \<notin> set principle_keys" by code_simp
  have z: "jd_principle ?j \<notin> set principle_keys" by (simp add: principle_keys_def)
  from organizer_fixed_keys [of "[]" "[]" ?d ?j] k q p z show ?thesis by blast
qed

lemma question_id_marker_suffix:
  assumes "str_contains ''refers-to-question'' (q_predicate q)"
    and o: "q_object q = x @ ''FIP-Question-'' @ t"
    and nt: "\<not> str_contains ''FIP-Question-'' t"
    and post: "\<forall>r\<in>set post. \<not> (str_contains ''refers-to-question'' (str_lower (q_predicate r))
              \<or> q_predicate r = refers_to_question)"
  shows "question_id (parse_declaration (pre @ q # post)) = Some t"
proof -
  let ?m = "''FIP-Question-''"
  have c: "str_contains ?m (q_object q)" unfolding str_contains_iff using o by blast
  have res: "question_id (parse_declaration (pre @ q # post))
      = Some (last (str_split (q_object q) ?m))"
    using question_id_parse_declaration [OF post, of pre q]
      question_step_marker [OF assms(1) c] by simp
  from last_split_marker [OF c] obtain a b
    where ab: "q_object q = a @ ?m @ b" "\<not> str_contains ?m b"
      "last (str_split (q_object q) ?m) = b" by blast
  have "length x \<le> length a" by (rule marker_last_occurrence [OF ab(1,2) o])
  moreover have "length a \<le> length x" by (rule marker_last_occurrence [OF o nt ab(1)])
  ultimately have len: "length a = length x" by simp
  from ab(1) o have "a @ (?m @ b) = x @ (?m @ t)" by simp
  with len have "b = t" by simp
  with res ab(3) show ?thesis by simp
qed

lemma principle_match_A2: "principle_match ''FIP-Question-A2'' = Some (''A2'', ''Metadata'')"
  by code_simp

lemma lower_Metadata: "str_lower ''Metadata'' \<noteq> ''data''"
  by code_simp

lemma A2_key: "''A2'' \<in> set principle_keys"
  by (simp add: principle_keys_def)

lemma organize_json_step_metadata:
  assumes "jd_principle j = p" and "p \<noteq> []" and "organized p = Some b"
    and "str_lower (jd_data_type j) \<noteq> ''data''"
  shows "organize_json_step j organized
           = organized(p \<mapsto> b\<lparr>metadata := metadata b @ [json_resource_info j]\<rparr>)"
  using assms by (auto simp: organize_json_step_def add_metadata_def)

text \<open>
  C10. A declaration whose question id contains no \<open>-\<close> has the whole id as its principle
  and the type \<open>D\<close>: when the id is one of the 15 keys the entry is appended to the data
  list of that bucket. So a declaration that refers to a question URI ending in
  \<open>FIP-Question-A2\<close> (question id \<open>A2\<close>) is filed under A2, data, whereas the JSON
  pipeline matches the path \<open>FIP-Question-A2\<close> to (A2, Metadata) and files the reply's
  resource under A2, metadata.
\<close>

theorem organize_by_principle_no_dash:
  "(question_id d = Some q_id \<and> CHR ''-'' \<notin> set q_id \<longrightarrow>
      question_id_parts q_id = (q_id, ''D'')
      \<and> (q_id \<in> set principle_keys \<longrightarrow>
            (\<exists>b. organize_by_principle ds q_id = Some b \<and>
                 organize_by_principle (ds @ [d]) =
                   (organize_by_principle ds)
                     (q_id \<mapsto> b\<lparr>data := data b @ [decl_resource_info d]\<rparr>))))
   \<and> (str_contains ''refers-to-question'' (q_predicate q) \<and> q_object q = x @ ''FIP-Question-A2''
        \<longrightarrow> question_id (parse_declaration (pre @ [q])) = Some ''A2''
          \<and> (\<exists>b. organize_by_principle ds ''A2'' = Some b \<and>
                 organize_by_principle (ds @ [parse_declaration (pre @ [q])]) =
                   (organize_by_principle ds)
                     (''A2'' \<mapsto> b\<lparr>data := data b @ [decl_resource_info (parse_declaration (pre @ [q]))]\<rparr>)))
   \<and> principle_match ''FIP-Question-A2'' = Some (''A2'', ''Metadata'')
   \<and> (reply_path r = ''FIP-Question-A2'' \<and> reply_answer r = Answer_dict [Item_dict i]
        \<longrightarrow> (\<exists>b j. reply_declarations r = [j] \<and> jd_principle j = ''A2''
                 \<and> organize_by_principle_from_json js ''A2'' = Some b
                 \<and> organize_by_principle_from_json (js @ reply_declarations r) =
                   (organize_by_principle_from_json js)
                     (''A2'' \<mapsto> b\<lparr>metadata := metadata b @ [json_resource_info j]\<rparr>)))"
proof -
  have no_dash: "\<exists>b. organize_by_principle ds' k = Some b \<and>
                 organize_by_principle (ds' @ [d']) =
                   (organize_by_principle ds')
                     (k \<mapsto> b\<lparr>data := data b @ [decl_resource_info d']\<rparr>)"
    if q: "question_id d' = Some k" and nd: "CHR ''-'' \<notin> set k" and key: "k \<in> set principle_keys"
    for d' k ds'
  proof -
    from key obtain b where b: "organize_by_principle ds' k = Some b"
      using organize_by_principle_Some by blast
    have parts: "question_id_parts k = (k, ''D'')" using nd by (rule question_id_parts_no_dash)
    from key have ne: "k \<noteq> []" by (auto simp: principle_keys_def)
    have "organize_by_principle (ds' @ [d']) =
            (organize_by_principle ds')(k \<mapsto> b\<lparr>data := data b @ [decl_resource_info d']\<rparr>)"
      using organize_step_known [of d' k k "''D''" "organize_by_principle ds'" b] q ne parts b
      by (simp add: organize_by_principle_snoc upper_D)
    with b show ?thesis by blast
  qed
  have first: "question_id d = Some q_id \<and> CHR ''-'' \<notin> set q_id \<longrightarrow>
      question_id_parts q_id = (q_id, ''D'')
      \<and> (q_id \<in> set principle_keys \<longrightarrow>
            (\<exists>b. organize_by_principle ds q_id = Some b \<and>
                 organize_by_principle (ds @ [d]) =
                   (organize_by_principle ds)
                     (q_id \<mapsto> b\<lparr>data := data b @ [decl_resource_info d]\<rparr>)))"
    using no_dash [of d q_id ds] question_id_parts_no_dash [of q_id] by blast
  have second: "str_contains ''refers-to-question'' (q_predicate q) \<and> q_object q = x @ ''FIP-Question-A2''
        \<longrightarrow> question_id (parse_declaration (pre @ [q])) = Some ''A2''
          \<and> (\<exists>b. organize_by_principle ds ''A2'' = Some b \<and>
                 organize_by_principle (ds @ [parse_declaration (pre @ [q])]) =
                   (organize_by_principle ds)
                     (''A2'' \<mapsto> b\<lparr>data := data b @ [decl_resource_info (parse_declaration (pre @ [q]))]\<rparr>))"
  proof (intro impI, elim conjE)
    assume p: "str_contains ''refers-to-question'' (q_predicate q)"
      and "q_object q = x @ ''FIP-Question-A2''"
    then have o: "q_object q = x @ ''FIP-Question-'' @ ''A2''" by simp
    have nt: "\<not> str_contains ''FIP-Question-'' ''A2''" by simp
    have "question_id (parse_declaration (pre @ q # [])) = Some ''A2''"
      by (rule question_id_marker_suffix [OF p o nt]) simp
    then have qid: "question_id (parse_declaration (pre @ [q])) = Some ''A2''" by simp
    have "CHR ''-'' \<notin> set ''A2''" by simp
    from no_dash [OF qid this A2_key, of ds] qid
    show "question_id (parse_declaration (pre @ [q])) = Some ''A2''
          \<and> (\<exists>b. organize_by_principle ds ''A2'' = Some b \<and>
                 organize_by_principle (ds @ [parse_declaration (pre @ [q])]) =
                   (organize_by_principle ds)
                     (''A2'' \<mapsto> b\<lparr>data := data b @ [decl_resource_info (parse_declaration (pre @ [q]))]\<rparr>))"
      by blast
  qed
  have fourth: "reply_path r = ''FIP-Question-A2'' \<and> reply_answer r = Answer_dict [Item_dict i]
        \<longrightarrow> (\<exists>b j. reply_declarations r = [j] \<and> jd_principle j = ''A2''
                 \<and> organize_by_principle_from_json js ''A2'' = Some b
                 \<and> organize_by_principle_from_json (js @ reply_declarations r) =
                   (organize_by_principle_from_json js)
                     (''A2'' \<mapsto> b\<lparr>metadata := metadata b @ [json_resource_info j]\<rparr>))"
  proof (intro impI, elim conjE)
    assume rp: "reply_path r = ''FIP-Question-A2''" and ra: "reply_answer r = Answer_dict [Item_dict i]"
    obtain j where j: "reply_declarations r = [j]" "jd_principle j = ''A2''"
      "jd_data_type j = ''Metadata''"
      using rp ra by (simp add: reply_declarations_def principle_match_A2 item_declarations_def)
    obtain b where b: "organize_by_principle_from_json js ''A2'' = Some b"
      using organize_by_principle_from_json_Some [OF A2_key] by blast
    have "organize_json_step j (organize_by_principle_from_json js)
           = (organize_by_principle_from_json js)
               (''A2'' \<mapsto> b\<lparr>metadata := metadata b @ [json_resource_info j]\<rparr>)"
      using organize_json_step_metadata [of j "''A2''" "organize_by_principle_from_json js" b]
        j(2,3) b lower_Metadata by simp
    then have "organize_by_principle_from_json (js @ reply_declarations r) =
                   (organize_by_principle_from_json js)
                     (''A2'' \<mapsto> b\<lparr>metadata := metadata b @ [json_resource_info j]\<rparr>)"
      by (simp add: j(1) organize_by_principle_from_json_snoc)
    with j b show "\<exists>b j. reply_declarations r = [j] \<and> jd_principle j = ''A2''
                 \<and> organize_by_principle_from_json js ''A2'' = Some b
                 \<and> organize_by_principle_from_json (js @ reply_declarations r) =
                   (organize_by_principle_from_json js)
                     (''A2'' \<mapsto> b\<lparr>metadata := metadata b @ [json_resource_info j]\<rparr>)"
      by blast
  qed
  from first second principle_match_A2 fourth show ?thesis by blast
qed


theorem organize_by_principle_no_dash_witness:
  "question_id \<lparr>question = Some ''https://w3id.org/fair/fip/terms/FIP-Question-A2'',
        question_id = Some ''A2'', resource_label = Some ''Plan'',
        resource_uri = Some ''https://example.org/plan'', resource_type = ''current''\<rparr> = Some ''A2''
   \<and> CHR ''-'' \<notin> set ''A2''
   \<and> ''A2'' \<in> set principle_keys
   \<and> organize_by_principle ([] @ [\<lparr>question = Some ''https://w3id.org/fair/fip/terms/FIP-Question-A2'',
        question_id = Some ''A2'', resource_label = Some ''Plan'',
        resource_uri = Some ''https://example.org/plan'', resource_type = ''current''\<rparr>]) ''A2''
      = Some \<lparr>data = [\<lparr>ri_label = Some ''Plan'', ri_uri = Some ''https://example.org/plan'',
                        ri_type = ''current''\<rparr>],
              metadata = []\<rparr>
   \<and> str_contains ''refers-to-question''
        (q_predicate \<lparr>q_subject = ''http://example.org/np4#declaration'',
           q_predicate = ''https://w3id.org/fair/fip/terms/refers-to-question'',
           q_object = ''https://w3id.org/fair/fip/terms/FIP-Question-A2'',
           q_literal = False, q_graph = ''http://example.org/np4#assertion''\<rparr>)
   \<and> q_object \<lparr>q_subject = ''http://example.org/np4#declaration'',
           q_predicate = ''https://w3id.org/fair/fip/terms/refers-to-question'',
           q_object = ''https://w3id.org/fair/fip/terms/FIP-Question-A2'',
           q_literal = False, q_graph = ''http://example.org/np4#assertion''\<rparr>
        = ''https://w3id.org/fair/fip/terms/'' @ ''FIP-Question-A2''
   \<and> question_id (parse_declaration ([] @
         [\<lparr>q_subject = ''http://example.org/np4#declaration'',
           q_predicate = ''https://w3id.org/fair/fip/terms/refers-to-question'',
           q_object = ''https://w3id.org/fair/fip/terms/FIP-Question-A2'',
           q_literal = False, q_graph = ''http://example.org/np4#assertion''\<rparr>])) = Some ''A2''
   \<and> reply_path \<lparr>reply_path = ''FIP-Question-A2'',
          reply_answer = Answer_dict [Item_dict \<lparr>i_label = Some (PStr ''Plan''), i_name = None,
            i_id = None, i_uri = Some (PStr ''https://example.org/plan''), i_url = None\<rparr>]\<rparr>
        = ''FIP-Question-A2''
   \<and> reply_answer \<lparr>reply_path = ''FIP-Question-A2'',
          reply_answer = Answer_dict [Item_dict \<lparr>i_label = Some (PStr ''Plan''), i_name = None,
            i_id = None, i_uri = Some (PStr ''https://example.org/plan''), i_url = None\<rparr>]\<rparr>
        = Answer_dict [Item_dict \<lparr>i_label = Some (PStr ''Plan''), i_name = None,
            i_id = None, i_uri = Some (PStr ''https://example.org/plan''), i_url = None\<rparr>]
   \<and> organize_by_principle_from_json ([] @ reply_declarations \<lparr>reply_path = ''FIP-Question-A2'',
          reply_answer = Answer_dict [Item_dict \<lparr>i_label = Some (PStr ''Plan''), i_name = None,
            i_id = None, i_uri = Some (PStr ''https://example.org/plan''), i_url = None\<rparr>]\<rparr>) ''A2''
      = Some \<lparr>data = [],
              metadata = [\<lparr>ri_label = PStr ''Plan'', ri_uri = PStr ''https://example.org/plan'',
                            ri_type = ''current''\<rparr>]\<rparr>"
proof -
  let ?d = "\<lparr>question = Some ''https://w3id.org/fair/fip/terms/FIP-Question-A2'',
        question_id = Some ''A2'', resource_label = Some ''Plan'',
        resource_uri = Some ''https://example.org/plan'', resource_type = ''current''\<rparr>"
  let ?q = "\<lparr>q_subject = ''http://example.org/np4#declaration'',
           q_predicate = ''https://w3id.org/fair/fip/terms/refers-to-question'',
           q_object = ''https://w3id.org/fair/fip/terms/FIP-Question-A2'',
           q_literal = False, q_graph = ''http://example.org/np4#assertion''\<rparr>"
  let ?i = "\<lparr>i_label = Some (PStr ''Plan''), i_name = None,
            i_id = None, i_uri = Some (PStr ''https://example.org/plan''), i_url = None\<rparr>"
  let ?r = "\<lparr>reply_path = ''FIP-Question-A2'', reply_answer = Answer_dict [Item_dict ?i]\<rparr>"
  let ?j = "\<lparr>jd_question_id = ''FIP-Question-A2'', jd_resource_label = PStr ''Plan'',
        jd_resource_uri = PStr ''https://example.org/plan'', jd_resource_type = ''current'',
        jd_principle = ''A2'', jd_data_type = ''Metadata''\<rparr>"
  note inst = organize_by_principle_no_dash [of ?d "''A2''" "[]" ?q
      "''https://w3id.org/fair/fip/terms/''" "[]" ?r ?i "[]"]
  have h1: "question_id ?d = Some ''A2''" by simp
  have h2: "CHR ''-'' \<notin> set ''A2''" by simp
  have h3: "str_contains ''refers-to-question'' (q_predicate ?q)" by simp
  have h4: "q_object ?q = ''https://w3id.org/fair/fip/terms/'' @ ''FIP-Question-A2''" by simp
  have h5: "reply_path ?r = ''FIP-Question-A2''" by simp
  have h6: "reply_answer ?r = Answer_dict [Item_dict ?i]" by simp
  have e1: "organize_by_principle [] ''A2'' = Some \<lparr>data = [], metadata = []\<rparr>"
    by (simp add: organize_by_principle_def empty_organized_lookup A2_key)
  have e2: "organize_by_principle_from_json [] ''A2'' = Some \<lparr>data = [], metadata = []\<rparr>"
    by (simp add: organize_by_principle_from_json_def empty_organized_lookup A2_key)
  from inst h1 h2 A2_key obtain b
    where "organize_by_principle [] ''A2'' = Some b"
      "organize_by_principle ([] @ [?d]) =
         (organize_by_principle [])(''A2'' \<mapsto> b\<lparr>data := data b @ [decl_resource_info ?d]\<rparr>)"
    by blast
  with e1 have c1: "organize_by_principle ([] @ [?d]) ''A2''
      = Some \<lparr>data = [\<lparr>ri_label = Some ''Plan'', ri_uri = Some ''https://example.org/plan'',
                        ri_type = ''current''\<rparr>], metadata = []\<rparr>"
    by (simp add: decl_resource_info_def py_or_def truthy_def)
  from inst h3 h4 have c2: "question_id (parse_declaration ([] @ [?q])) = Some ''A2''" by blast
  have rd: "reply_declarations ?r = [?j]"
    by (simp add: reply_declarations_def principle_match_A2 item_declarations_def pv_or_def
        py_truthy_def get_or_none_def get_or_def)
  from inst h5 h6 obtain b' j
    where "reply_declarations ?r = [j]" "organize_by_principle_from_json [] ''A2'' = Some b'"
      "organize_by_principle_from_json ([] @ reply_declarations ?r) =
         (organize_by_principle_from_json [])
           (''A2'' \<mapsto> b'\<lparr>metadata := metadata b' @ [json_resource_info j]\<rparr>)"
    by blast
  with e2 rd have c3: "organize_by_principle_from_json ([] @ reply_declarations ?r) ''A2''
      = Some \<lparr>data = [],
              metadata = [\<lparr>ri_label = PStr ''Plan'', ri_uri = PStr ''https://example.org/plan'',
                            ri_type = ''current''\<rparr>]\<rparr>"
    by (simp add: json_resource_info_def)
  from h1 h2 A2_key c1 h3 h4 c2 h5 h6 c3 show ?thesis by (intro conjI)
qed

lemma set_field_lookup:
  "set_field c k v m k' = (if c \<and> k' = k then Some v else m k')"
  by (simp add: set_field_def)

lemma dom_set_field: "k \<in> dom m \<Longrightarrow> dom (set_field c k v m) = dom m"
  by (auto simp: set_field_def)

lemma header_step_Inr:
  assumes "info ''creators'' = Some (PList cs)"
  shows "header_step q info =
     Inr (set_field (str_contains ''wasDerivedFrom'' (q_predicate q) \<and> str_contains ''fip/wizard'' (q_object q))
            ''wizard_source'' (PStr (q_object q))
         (set_field (str_contains ''created'' (str_lower (q_predicate q)) \<and> q_literal q)
            ''created'' (PStr (q_object q))
         (set_field (str_contains ''creator'' (str_lower (q_predicate q)) \<and> str_contains ''orcid.org'' (q_object q))
            ''creators'' (PList (cs @ [PStr (q_object q)]))
         (set_field (str_contains ''declaration-index'' (str_lower (q_predicate q)))
            ''declaration_index'' (PStr (q_object q))
         (set_field (str_contains ''declared-by'' (str_lower (q_predicate q)))
            ''declared_by'' (PStr (q_object q))
         (set_field (str_contains ''version'' (str_lower (q_predicate q)))
            ''version'' (PStr (q_object q))
         (set_field (str_contains ''description'' (str_lower (q_predicate q)))
            ''description'' (PStr (q_object q))
         (set_field (str_contains ''label'' (str_lower (q_predicate q)))
            ''label'' (PStr (q_object q)) info))))))))"
proof -
  let ?i5 = "set_field (str_contains ''declaration-index'' (str_lower (q_predicate q)))
            ''declaration_index'' (PStr (q_object q))
         (set_field (str_contains ''declared-by'' (str_lower (q_predicate q)))
            ''declared_by'' (PStr (q_object q))
         (set_field (str_contains ''version'' (str_lower (q_predicate q)))
            ''version'' (PStr (q_object q))
         (set_field (str_contains ''description'' (str_lower (q_predicate q)))
            ''description'' (PStr (q_object q))
         (set_field (str_contains ''label'' (str_lower (q_predicate q)))
            ''label'' (PStr (q_object q)) info))))"
  have c: "?i5 ''creators'' = Some (PList cs)"
    by (simp add: set_field_lookup assms)
  have a: "append_creator (q_object q) ?i5 = Inr (?i5(''creators'' \<mapsto> PList (cs @ [PStr (q_object q)])))"
    by (simp add: append_creator_def c)
  show ?thesis
    by (simp add: header_step_def Let_def a set_field_def [where key = "''creators''"])
qed

lemma last_match_step:
  "(case filter P qs of [] \<Rightarrow> (if P q then Some (f q) else x) | ms \<Rightarrow> Some (f (last ms)))
     = (case filter P (q # qs) of [] \<Rightarrow> x | ms \<Rightarrow> Some (f (last ms)))"
  by (simp split: list.splits)

lemma header_loop_result:
  assumes "info ''creators'' = Some (PList cs)" and "{''label'', ''description'', ''version'', ''declared_by'', ''declaration_index'', ''creators'', ''created'', ''wizard_source''} \<subseteq> dom info"
  shows "\<exists>info'. header_loop g info = Inr info'
     \<and> dom info' = dom info
     \<and> info' ''label'' =
         (case filter (\<lambda>q. str_contains ''label'' (str_lower (q_predicate q))) g of
            [] \<Rightarrow> info ''label''
          | ms \<Rightarrow> Some (PStr (q_object (last ms))))
     \<and> info' ''description'' =
         (case filter (\<lambda>q. str_contains ''description'' (str_lower (q_predicate q))) g of
            [] \<Rightarrow> info ''description''
          | ms \<Rightarrow> Some (PStr (q_object (last ms))))
     \<and> info' ''version'' =
         (case filter (\<lambda>q. str_contains ''version'' (str_lower (q_predicate q))) g of
            [] \<Rightarrow> info ''version''
          | ms \<Rightarrow> Some (PStr (q_object (last ms))))
     \<and> info' ''declared_by'' =
         (case filter (\<lambda>q. str_contains ''declared-by'' (str_lower (q_predicate q))) g of
            [] \<Rightarrow> info ''declared_by''
          | ms \<Rightarrow> Some (PStr (q_object (last ms))))
     \<and> info' ''declaration_index'' =
         (case filter (\<lambda>q. str_contains ''declaration-index'' (str_lower (q_predicate q))) g of
            [] \<Rightarrow> info ''declaration_index''
          | ms \<Rightarrow> Some (PStr (q_object (last ms))))
     \<and> info' ''created'' =
         (case filter (\<lambda>q. str_contains ''created'' (str_lower (q_predicate q)) \<and> q_literal q) g of
            [] \<Rightarrow> info ''created''
          | ms \<Rightarrow> Some (PStr (q_object (last ms))))
     \<and> info' ''wizard_source'' =
         (case filter (\<lambda>q. str_contains ''wasDerivedFrom'' (q_predicate q) \<and> str_contains ''fip/wizard'' (q_object q)) g of
            [] \<Rightarrow> info ''wizard_source''
          | ms \<Rightarrow> Some (PStr (q_object (last ms))))
     \<and> info' ''creators'' =
         Some (PList (cs @ map (\<lambda>q. PStr (q_object q)) (filter (\<lambda>q. str_contains ''creator'' (str_lower (q_predicate q)) \<and> str_contains ''orcid.org'' (q_object q)) g)))"
  using assms
proof (induction g arbitrary: info cs)
  case Nil
  then show ?case by simp
next
  case (Cons q qs)
  obtain info1 where step: "header_step q info = Inr info1"
    and f_label: "info1 ''label'' = (if str_contains ''label'' (str_lower (q_predicate q)) then Some (PStr (q_object q)) else info ''label'')"
    and f_description: "info1 ''description'' = (if str_contains ''description'' (str_lower (q_predicate q)) then Some (PStr (q_object q)) else info ''description'')"
    and f_version: "info1 ''version'' = (if str_contains ''version'' (str_lower (q_predicate q)) then Some (PStr (q_object q)) else info ''version'')"
    and f_declared_by: "info1 ''declared_by'' = (if str_contains ''declared-by'' (str_lower (q_predicate q)) then Some (PStr (q_object q)) else info ''declared_by'')"
    and f_declaration_index: "info1 ''declaration_index'' = (if str_contains ''declaration-index'' (str_lower (q_predicate q)) then Some (PStr (q_object q)) else info ''declaration_index'')"
    and f_created: "info1 ''created'' = (if str_contains ''created'' (str_lower (q_predicate q)) \<and> q_literal q then Some (PStr (q_object q)) else info ''created'')"
    and f_wizard_source: "info1 ''wizard_source'' = (if str_contains ''wasDerivedFrom'' (q_predicate q) \<and> str_contains ''fip/wizard'' (q_object q) then Some (PStr (q_object q)) else info ''wizard_source'')"
    and f_creators: "info1 ''creators'' = Some (PList (if str_contains ''creator'' (str_lower (q_predicate q)) \<and> str_contains ''orcid.org'' (q_object q) then cs @ [PStr (q_object q)] else cs))"
    and d1: "dom info1 = dom info"
  proof -
    from Cons.prems(2) have mem: "''label'' \<in> dom info" "''description'' \<in> dom info" "''version'' \<in> dom info"
      "''declared_by'' \<in> dom info" "''declaration_index'' \<in> dom info" "''creators'' \<in> dom info"
      "''created'' \<in> dom info" "''wizard_source'' \<in> dom info" by auto
    show ?thesis
      by (rule that [OF header_step_Inr [where info = info and cs = cs and q = q, OF Cons.prems(1)]])
        (simp_all add: set_field_lookup Cons.prems(1) dom_set_field mem)
  qed
  have sub1: "{''label'', ''description'', ''version'', ''declared_by'', ''declaration_index'', ''creators'', ''created'', ''wizard_source''} \<subseteq> dom info1" using Cons.prems(2) d1 by simp
  from Cons.IH [where info = info1, OF f_creators sub1] obtain info' where
    r: "header_loop qs info1 = Inr info'" and d: "dom info' = dom info1"
    and g_label: "info' ''label'' =
         (case filter (\<lambda>q. str_contains ''label'' (str_lower (q_predicate q))) qs of
            [] \<Rightarrow> info1 ''label''
          | ms \<Rightarrow> Some (PStr (q_object (last ms))))"
    and g_description: "info' ''description'' =
         (case filter (\<lambda>q. str_contains ''description'' (str_lower (q_predicate q))) qs of
            [] \<Rightarrow> info1 ''description''
          | ms \<Rightarrow> Some (PStr (q_object (last ms))))"
    and g_version: "info' ''version'' =
         (case filter (\<lambda>q. str_contains ''version'' (str_lower (q_predicate q))) qs of
            [] \<Rightarrow> info1 ''version''
          | ms \<Rightarrow> Some (PStr (q_object (last ms))))"
    and g_declared_by: "info' ''declared_by'' =
         (case filter (\<lambda>q. str_contains ''declared-by'' (str_lower (q_predicate q))) qs of
            [] \<Rightarrow> info1 ''declared_by''
          | ms \<Rightarrow> Some (PStr (q_object (last ms))))"
    and g_declaration_index: "info' ''declaration_index'' =
         (case filter (\<lambda>q. str_contains ''declaration-index'' (str_lower (q_predicate q))) qs of
            [] \<Rightarrow> info1 ''declaration_index''
          | ms \<Rightarrow> Some (PStr (q_object (last ms))))"
    and g_created: "info' ''created'' =
         (case filter (\<lambda>q. str_contains ''created'' (str_lower (q_predicate q)) \<and> q_literal q) qs of
            [] \<Rightarrow> info1 ''created''
          | ms \<Rightarrow> Some (PStr (q_object (last ms))))"
    and g_wizard_source: "info' ''wizard_source'' =
         (case filter (\<lambda>q. str_contains ''wasDerivedFrom'' (q_predicate q) \<and> str_contains ''fip/wizard'' (q_object q)) qs of
            [] \<Rightarrow> info1 ''wizard_source''
          | ms \<Rightarrow> Some (PStr (q_object (last ms))))"
    and g_creators: "info' ''creators'' =
         Some (PList ((if str_contains ''creator'' (str_lower (q_predicate q)) \<and> str_contains ''orcid.org'' (q_object q) then cs @ [PStr (q_object q)] else cs)
            @ map (\<lambda>q. PStr (q_object q)) (filter (\<lambda>q. str_contains ''creator'' (str_lower (q_predicate q)) \<and> str_contains ''orcid.org'' (q_object q)) qs)))"
    by blast
  have loop: "header_loop (q # qs) info = Inr info'" using step r by simp
  have dd: "dom info' = dom info" using d d1 by simp
  have h_label: "info' ''label'' =
         (case filter (\<lambda>q. str_contains ''label'' (str_lower (q_predicate q))) (q # qs) of
            [] \<Rightarrow> info ''label''
          | ms \<Rightarrow> Some (PStr (q_object (last ms))))"
    unfolding g_label f_label by (rule last_match_step)
  have h_description: "info' ''description'' =
         (case filter (\<lambda>q. str_contains ''description'' (str_lower (q_predicate q))) (q # qs) of
            [] \<Rightarrow> info ''description''
          | ms \<Rightarrow> Some (PStr (q_object (last ms))))"
    unfolding g_description f_description by (rule last_match_step)
  have h_version: "info' ''version'' =
         (case filter (\<lambda>q. str_contains ''version'' (str_lower (q_predicate q))) (q # qs) of
            [] \<Rightarrow> info ''version''
          | ms \<Rightarrow> Some (PStr (q_object (last ms))))"
    unfolding g_version f_version by (rule last_match_step)
  have h_declared_by: "info' ''declared_by'' =
         (case filter (\<lambda>q. str_contains ''declared-by'' (str_lower (q_predicate q))) (q # qs) of
            [] \<Rightarrow> info ''declared_by''
          | ms \<Rightarrow> Some (PStr (q_object (last ms))))"
    unfolding g_declared_by f_declared_by by (rule last_match_step)
  have h_declaration_index: "info' ''declaration_index'' =
         (case filter (\<lambda>q. str_contains ''declaration-index'' (str_lower (q_predicate q))) (q # qs) of
            [] \<Rightarrow> info ''declaration_index''
          | ms \<Rightarrow> Some (PStr (q_object (last ms))))"
    unfolding g_declaration_index f_declaration_index by (rule last_match_step)
  have h_created: "info' ''created'' =
         (case filter (\<lambda>q. str_contains ''created'' (str_lower (q_predicate q)) \<and> q_literal q) (q # qs) of
            [] \<Rightarrow> info ''created''
          | ms \<Rightarrow> Some (PStr (q_object (last ms))))"
    unfolding g_created f_created by (rule last_match_step)
  have h_wizard_source: "info' ''wizard_source'' =
         (case filter (\<lambda>q. str_contains ''wasDerivedFrom'' (q_predicate q) \<and> str_contains ''fip/wizard'' (q_object q)) (q # qs) of
            [] \<Rightarrow> info ''wizard_source''
          | ms \<Rightarrow> Some (PStr (q_object (last ms))))"
    unfolding g_wizard_source f_wizard_source by (rule last_match_step)
  have h_creators: "info' ''creators'' =
         Some (PList (cs @ map (\<lambda>q. PStr (q_object q)) (filter (\<lambda>q. str_contains ''creator'' (str_lower (q_predicate q)) \<and> str_contains ''orcid.org'' (q_object q)) (q # qs))))"
    unfolding g_creators by simp
  from loop dd h_label h_description h_version h_declared_by h_declaration_index h_created h_wizard_source h_creators show ?case by blast
qed

lemma initial_fip_info_creators: "initial_fip_info ''creators'' = Some (PList [])"
  by (simp add: initial_fip_info_def)

lemma dom_initial_fip_info:
  "dom initial_fip_info = {''label'', ''description'', ''version'', ''declared_by'', ''declaration_index'', ''creators'', ''created'', ''wizard_source''}"
  by (auto simp: initial_fip_info_def)

lemma case_list_none_or_str:
  "(case xs of [] \<Rightarrow> PNone | ms \<Rightarrow> PStr (f ms)) = PNone
     \<or> (\<exists>s. (case xs of [] \<Rightarrow> PNone | ms \<Rightarrow> PStr (f ms)) = PStr s)"
  by (simp split: list.splits)


section \<open>Claims about the Header Extractor\<close>

text \<open>
  C9 (as amended). For every quad list \<open>parse_fip_header\<close> returns a record and raises
  nothing. The record has exactly the eight keys. Each of the seven keys other than
  \<open>creators\<close> holds \<open>None\<close> or a string: the object of the last quad that matches the
  key's pattern, and \<open>None\<close> when no quad matches. The key \<open>creators\<close> holds a list, the
  objects of the matching quads in order, which is empty when no quad matches.
\<close>

theorem parse_fip_header_result:
  "\<exists>info. parse_fip_header g = Inr info
     \<and> dom info = {''label'', ''description'', ''version'', ''declared_by'', ''declaration_index'', ''creators'', ''created'', ''wizard_source''}
     \<and> (\<forall>k\<in>{''label'', ''description'', ''version'', ''declared_by'', ''declaration_index'', ''created'', ''wizard_source''}.
           info k = Some PNone \<or> (\<exists>s. info k = Some (PStr s)))
     \<and> info ''creators'' =
         Some (PList (map (\<lambda>q. PStr (q_object q)) (filter (\<lambda>q. str_contains ''creator'' (str_lower (q_predicate q)) \<and> str_contains ''orcid.org'' (q_object q)) g)))
     \<and> info ''label'' =
         Some (case filter (\<lambda>q. str_contains ''label'' (str_lower (q_predicate q))) g of
                 [] \<Rightarrow> PNone
               | ms \<Rightarrow> PStr (q_object (last ms)))
     \<and> info ''description'' =
         Some (case filter (\<lambda>q. str_contains ''description'' (str_lower (q_predicate q))) g of
                 [] \<Rightarrow> PNone
               | ms \<Rightarrow> PStr (q_object (last ms)))
     \<and> info ''version'' =
         Some (case filter (\<lambda>q. str_contains ''version'' (str_lower (q_predicate q))) g of
                 [] \<Rightarrow> PNone
               | ms \<Rightarrow> PStr (q_object (last ms)))
     \<and> info ''declared_by'' =
         Some (case filter (\<lambda>q. str_contains ''declared-by'' (str_lower (q_predicate q))) g of
                 [] \<Rightarrow> PNone
               | ms \<Rightarrow> PStr (q_object (last ms)))
     \<and> info ''declaration_index'' =
         Some (case filter (\<lambda>q. str_contains ''declaration-index'' (str_lower (q_predicate q))) g of
                 [] \<Rightarrow> PNone
               | ms \<Rightarrow> PStr (q_object (last ms)))
     \<and> info ''created'' =
         Some (case filter (\<lambda>q. str_contains ''created'' (str_lower (q_predicate q)) \<and> q_literal q) g of
                 [] \<Rightarrow> PNone
               | ms \<Rightarrow> PStr (q_object (last ms)))
     \<and> info ''wizard_source'' =
         Some (case filter (\<lambda>q. str_contains ''wasDerivedFrom'' (q_predicate q) \<and> str_contains ''fip/wizard'' (q_object q)) g of
                 [] \<Rightarrow> PNone
               | ms \<Rightarrow> PStr (q_object (last ms)))"
proof -
  have sub: "{''label'', ''description'', ''version'', ''declared_by'', ''declaration_index'', ''creators'', ''created'', ''wizard_source''} \<subseteq> dom initial_fip_info"
    by (simp add: dom_initial_fip_info)
  from header_loop_result [where info = initial_fip_info and cs = "[]" and g = g,
      OF initial_fip_info_creators sub]
  obtain info where r: "header_loop g initial_fip_info = Inr info"
    and d: "dom info = dom initial_fip_info"
    and g_label: "info ''label'' =
         (case filter (\<lambda>q. str_contains ''label'' (str_lower (q_predicate q))) g of
            [] \<Rightarrow> initial_fip_info ''label''
          | ms \<Rightarrow> Some (PStr (q_object (last ms))))"
    and g_description: "info ''description'' =
         (case filter (\<lambda>q. str_contains ''description'' (str_lower (q_predicate q))) g of
            [] \<Rightarrow> initial_fip_info ''description''
          | ms \<Rightarrow> Some (PStr (q_object (last ms))))"
    and g_version: "info ''version'' =
         (case filter (\<lambda>q. str_contains ''version'' (str_lower (q_predicate q))) g of
            [] \<Rightarrow> initial_fip_info ''version''
          | ms \<Rightarrow> Some (PStr (q_object (last ms))))"
    and g_declared_by: "info ''declared_by'' =
         (case filter (\<lambda>q. str_contains ''declared-by'' (str_lower (q_predicate q))) g of
            [] \<Rightarrow> initial_fip_info ''declared_by''
          | ms \<Rightarrow> Some (PStr (q_object (last ms))))"
    and g_declaration_index: "info ''declaration_index'' =
         (case filter (\<lambda>q. str_contains ''declaration-index'' (str_lower (q_predicate q))) g of
            [] \<Rightarrow> initial_fip_info ''declaration_index''
          | ms \<Rightarrow> Some (PStr (q_object (last ms))))"
    and g_created: "info ''created'' =
         (case filter (\<lambda>q. str_contains ''created'' (str_lower (q_predicate q)) \<and> q_literal q) g of
            [] \<Rightarrow> initial_fip_info ''created''
          | ms \<Rightarrow> Some (PStr (q_object (last ms))))"
    and g_wizard_source: "info ''wizard_source'' =
         (case filter (\<lambda>q. str_contains ''wasDerivedFrom'' (q_predicate q) \<and> str_contains ''fip/wizard'' (q_object q)) g of
            [] \<Rightarrow> initial_fip_info ''wizard_source''
          | ms \<Rightarrow> Some (PStr (q_object (last ms))))"
    and g_creators: "info ''creators'' =
         Some (PList ([] @ map (\<lambda>q. PStr (q_object q)) (filter (\<lambda>q. str_contains ''creator'' (str_lower (q_predicate q)) \<and> str_contains ''orcid.org'' (q_object q)) g)))"
    by blast
  have p: "parse_fip_header g = Inr info" using r by (simp add: parse_fip_header_def)
  have dd: "dom info = {''label'', ''description'', ''version'', ''declared_by'', ''declaration_index'', ''creators'', ''created'', ''wizard_source''}"
    using d by (simp only: dom_initial_fip_info)
  have h_label: "info ''label'' =
         Some (case filter (\<lambda>q. str_contains ''label'' (str_lower (q_predicate q))) g of
                 [] \<Rightarrow> PNone
               | ms \<Rightarrow> PStr (q_object (last ms)))"
    using g_label by (simp add: initial_fip_info_def split: list.splits)
  have h_description: "info ''description'' =
         Some (case filter (\<lambda>q. str_contains ''description'' (str_lower (q_predicate q))) g of
                 [] \<Rightarrow> PNone
               | ms \<Rightarrow> PStr (q_object (last ms)))"
    using g_description by (simp add: initial_fip_info_def split: list.splits)
  have h_version: "info ''version'' =
         Some (case filter (\<lambda>q. str_contains ''version'' (str_lower (q_predicate q))) g of
                 [] \<Rightarrow> PNone
               | ms \<Rightarrow> PStr (q_object (last ms)))"
    using g_version by (simp add: initial_fip_info_def split: list.splits)
  have h_declared_by: "info ''declared_by'' =
         Some (case filter (\<lambda>q. str_contains ''declared-by'' (str_lower (q_predicate q))) g of
                 [] \<Rightarrow> PNone
               | ms \<Rightarrow> PStr (q_object (last ms)))"
    using g_declared_by by (simp add: initial_fip_info_def split: list.splits)
  have h_declaration_index: "info ''declaration_index'' =
         Some (case filter (\<lambda>q. str_contains ''declaration-index'' (str_lower (q_predicate q))) g of
                 [] \<Rightarrow> PNone
               | ms \<Rightarrow> PStr (q_object (last ms)))"
    using g_declaration_index by (simp add: initial_fip_info_def split: list.splits)
  have h_created: "info ''created'' =
         Some (case filter (\<lambda>q. str_contains ''created'' (str_lower (q_predicate q)) \<and> q_literal q) g of
                 [] \<Rightarrow> PNone
               | ms \<Rightarrow> PStr (q_object (last ms)))"
    using g_created by (simp add: initial_fip_info_def split: list.splits)
  have h_wizard_source: "info ''wizard_source'' =
         Some (case filter (\<lambda>q. str_contains ''wasDerivedFrom'' (q_predicate q) \<and> str_contains ''fip/wizard'' (q_object q)) g of
                 [] \<Rightarrow> PNone
               | ms \<Rightarrow> PStr (q_object (last ms)))"
    using g_wizard_source by (simp add: initial_fip_info_def split: list.splits)
  have h_creators: "info ''creators'' =
         Some (PList (map (\<lambda>q. PStr (q_object q)) (filter (\<lambda>q. str_contains ''creator'' (str_lower (q_predicate q)) \<and> str_contains ''orcid.org'' (q_object q)) g)))"
    using g_creators by simp
  have ns: "\<forall>k\<in>{''label'', ''description'', ''version'', ''declared_by'', ''declaration_index'', ''created'', ''wizard_source''}.
           info k = Some PNone \<or> (\<exists>s. info k = Some (PStr s))"
  proof -
    have "info ''label'' = Some PNone \<or> (\<exists>s. info ''label'' = Some (PStr s))"
      unfolding h_label using case_list_none_or_str by simp
    moreover
    have "info ''description'' = Some PNone \<or> (\<exists>s. info ''description'' = Some (PStr s))"
      unfolding h_description using case_list_none_or_str by simp
    moreover
    have "info ''version'' = Some PNone \<or> (\<exists>s. info ''version'' = Some (PStr s))"
      unfolding h_version using case_list_none_or_str by simp
    moreover
    have "info ''declared_by'' = Some PNone \<or> (\<exists>s. info ''declared_by'' = Some (PStr s))"
      unfolding h_declared_by using case_list_none_or_str by simp
    moreover
    have "info ''declaration_index'' = Some PNone \<or> (\<exists>s. info ''declaration_index'' = Some (PStr s))"
      unfolding h_declaration_index using case_list_none_or_str by simp
    moreover
    have "info ''created'' = Some PNone \<or> (\<exists>s. info ''created'' = Some (PStr s))"
      unfolding h_created using case_list_none_or_str by simp
    moreover
    have "info ''wizard_source'' = Some PNone \<or> (\<exists>s. info ''wizard_source'' = Some (PStr s))"
      unfolding h_wizard_source using case_list_none_or_str by simp
    ultimately show ?thesis by simp
  qed
  from p dd ns h_creators h_label h_description h_version h_declared_by h_declaration_index h_created h_wizard_source show ?thesis by blast
qed

theorem parse_fip_header_result_witness:
  "\<exists>info. parse_fip_header
       [\<lparr>q_subject = ''http://example.org/fip'',
          q_predicate = ''http://www.w3.org/2000/01/rdf-schema#label'',
          q_object = ''Test FIP'', q_literal = True,
          q_graph = ''http://example.org/fip#assertion''\<rparr>,
        \<lparr>q_subject = ''http://example.org/fip'',
          q_predicate = ''http://purl.org/dc/terms/creator'',
          q_object = ''https://orcid.org/0000-0002-1825-0097'', q_literal = False,
          q_graph = ''http://example.org/fip#pubinfo''\<rparr>] = Inr info
     \<and> ''version'' \<in> {''label'', ''description'', ''version'', ''declared_by'',
           ''declaration_index'', ''created'', ''wizard_source''}
     \<and> (info ''version'' = Some PNone \<or> (\<exists>s. info ''version'' = Some (PStr s)))
     \<and> info ''label'' = Some (PStr ''Test FIP'')
     \<and> info ''description'' = Some PNone
     \<and> info ''creators'' = Some (PList [PStr ''https://orcid.org/0000-0002-1825-0097''])"
proof -
  let ?g = "[\<lparr>q_subject = ''http://example.org/fip'',
          q_predicate = ''http://www.w3.org/2000/01/rdf-schema#label'',
          q_object = ''Test FIP'', q_literal = True,
          q_graph = ''http://example.org/fip#assertion''\<rparr>,
        \<lparr>q_subject = ''http://example.org/fip'',
          q_predicate = ''http://purl.org/dc/terms/creator'',
          q_object = ''https://orcid.org/0000-0002-1825-0097'', q_literal = False,
          q_graph = ''http://example.org/fip#pubinfo''\<rparr>]"
  have e1: "(case filter (\<lambda>q. str_contains ''label'' (str_lower (q_predicate q))) ?g of
               [] \<Rightarrow> PNone | ms \<Rightarrow> PStr (q_object (last ms))) = PStr ''Test FIP''"
    by code_simp
  have e2: "(case filter (\<lambda>q. str_contains ''description'' (str_lower (q_predicate q))) ?g of
               [] \<Rightarrow> PNone | ms \<Rightarrow> PStr (q_object (last ms))) = PNone"
    by code_simp
  have e3: "map (\<lambda>q. PStr (q_object q))
              (filter (\<lambda>q. str_contains ''creator'' (str_lower (q_predicate q))
                         \<and> str_contains ''orcid.org'' (q_object q)) ?g)
            = [PStr ''https://orcid.org/0000-0002-1825-0097'']"
    by code_simp
  have m: "''version'' \<in> {''label'', ''description'', ''version'', ''declared_by'',
           ''declaration_index'', ''created'', ''wizard_source''}" by simp
  from parse_fip_header_result [of ?g] show ?thesis
  proof (elim exE conjE)
    fix info
    assume r: "parse_fip_header ?g = Inr info"
      and ns: "\<forall>k\<in>{''label'', ''description'', ''version'', ''declared_by'',
           ''declaration_index'', ''created'', ''wizard_source''}.
           info k = Some PNone \<or> (\<exists>s. info k = Some (PStr s))"
      and c: "info ''creators'' =
         Some (PList (map (\<lambda>q. PStr (q_object q))
           (filter (\<lambda>q. str_contains ''creator'' (str_lower (q_predicate q))
                      \<and> str_contains ''orcid.org'' (q_object q)) ?g)))"
      and l: "info ''label'' =
         Some (case filter (\<lambda>q. str_contains ''label'' (str_lower (q_predicate q))) ?g of
                 [] \<Rightarrow> PNone | ms \<Rightarrow> PStr (q_object (last ms)))"
      and d: "info ''description'' =
         Some (case filter (\<lambda>q. str_contains ''description'' (str_lower (q_predicate q))) ?g of
                 [] \<Rightarrow> PNone | ms \<Rightarrow> PStr (q_object (last ms)))"
    from ns m have v: "info ''version'' = Some PNone \<or> (\<exists>s. info ''version'' = Some (PStr s))"
      by (rule bspec)
    from l have l': "info ''label'' = Some (PStr ''Test FIP'')" by (simp only: e1)
    from d have d': "info ''description'' = Some PNone" by (simp only: e2)
    from c have c': "info ''creators'' = Some (PList [PStr ''https://orcid.org/0000-0002-1825-0097''])"
      by (simp only: e3)
    from r m v l' d' c' show ?thesis
      by - (rule exI [of _ info], (rule conjI, assumption)+, assumption)
  qed
qed

text \<open>
  C9 as stated fails for the field \<open>creators\<close>: on the empty quad list it is the empty
  list, which is neither \<open>None\<close> nor a string.
\<close>

theorem parse_fip_header_creators_counterexample:
  "parse_fip_header [] = Inr initial_fip_info
   \<and> initial_fip_info ''creators'' = Some (PList [])
   \<and> \<not> (initial_fip_info ''creators'' = Some PNone
          \<or> (\<exists>s. initial_fip_info ''creators'' = Some (PStr s)))"
  by (simp add: parse_fip_header_def initial_fip_info_def)

lemma try_body_Some:
  "try_body env resp = Some g \<longleftrightarrow> (\<exists>text. resp = Response 200 text \<and> parse_trig env text = Some g)"
  by (cases resp) (auto simp: try_body_def)

lemma try_body_None:
  "try_body env resp = None \<longleftrightarrow>
     (resp = Raised \<or> (\<exists>s text. resp = Response s text \<and> (s \<noteq> 200 \<or> parse_trig env text = None)))"
  by (cases resp) (auto simp: try_body_def)

lemma try_endpoints_trace:
  assumes "try_endpoints env eps w = (r, w', tr)"
  shows "map fst tr = take (length tr) eps
       \<and> (\<forall>a\<in>set (butlast tr). try_body env (snd a) = None)
       \<and> (case r of
            Some g \<Rightarrow> tr \<noteq> [] \<and> try_body env (snd (last tr)) = Some g
          | None \<Rightarrow> length tr = length eps \<and> (\<forall>a\<in>set tr. try_body env (snd a) = None))"
  using assms
proof (induction eps arbitrary: w r w' tr)
  case Nil
  then show ?case by simp
next
  case (Cons e es)
  obtain resp w1 where g: "http_get env e w = (resp, w1)" by (cases "http_get env e w")
  show ?case
  proof (cases "try_body env resp")
    case (Some g')
    with Cons.prems g have "r = Some g'" "tr = [(e, resp)]" by simp_all
    with Some show ?thesis by simp
  next
    case None
    obtain r2 w2 tr2 where rec: "try_endpoints env es w1 = (r2, w2, tr2)"
      by (cases "try_endpoints env es w1")
    with Cons.prems g None have r: "r = r2" and tr: "tr = (e, resp) # tr2" by simp_all
    note IH = Cons.IH [OF rec]
    from IH have 1: "map fst tr = take (length tr) (e # es)" by (simp add: tr)
    have 2: "\<forall>a\<in>set (butlast tr). try_body env (snd a) = None"
      using IH None by (auto simp: tr)
    have 3: "(case r of
            Some g \<Rightarrow> tr \<noteq> [] \<and> try_body env (snd (last tr)) = Some g
          | None \<Rightarrow> length tr = length (e # es) \<and> (\<forall>a\<in>set tr. try_body env (snd a) = None))"
      using IH None by (auto simp: tr r split: option.splits)
    from 1 2 3 show ?thesis by blast
  qed
qed

lemma length_endpoints: "length (endpoints uri format_type) = 4"
  by (simp add: endpoints_def Let_def)


section \<open>Claims about the Nanopublication Fetcher\<close>

text \<open>
  C5. The requests \<open>fetch_nanopub\<close> makes are an initial part of its four candidate
  URLs, in order, one request per candidate. Every request but the last failed: it raised,
  or its status was not 200, or parsing its body raised (the \<open>try\<close> catches that too).
  When a graph is returned, the last request made had status 200 and the graph is its
  parsed body, so no later candidate was tried; when \<open>None\<close> is returned, all four
  candidates were tried and all failed.
\<close>

theorem fetch_nanopub_first_success:
  assumes "fetch_nanopub env uri format_type w = (r, w', tr)"
  shows "map fst tr = take (length tr) (endpoints uri format_type)
       \<and> length tr \<le> 4
       \<and> (\<forall>a\<in>set (butlast tr).
             snd a = Raised
             \<or> (\<exists>s text. snd a = Response s text \<and> (s \<noteq> 200 \<or> parse_trig env text = None)))
       \<and> (\<forall>g. r = Some g \<longrightarrow>
             tr \<noteq> [] \<and> (\<exists>text. snd (last tr) = Response 200 text \<and> parse_trig env text = Some g))
       \<and> (r = None \<longrightarrow>
             map fst tr = endpoints uri format_type
             \<and> (\<forall>a\<in>set tr.
                   snd a = Raised
                   \<or> (\<exists>s text. snd a = Response s text \<and> (s \<noteq> 200 \<or> parse_trig env text = None))))"
proof -
  let ?eps = "endpoints uri format_type"
  from assms have t: "try_endpoints env ?eps w = (r, w', tr)" by (simp add: fetch_nanopub_def)
  note tr = try_endpoints_trace [OF t]
  from tr have 1: "map fst tr = take (length tr) ?eps" by blast
  then have "length tr = length (take (length tr) ?eps)" by (metis length_map)
  then have 2: "length tr \<le> 4" by (simp add: length_endpoints)
  from tr have 3: "\<forall>a\<in>set (butlast tr).
             snd a = Raised
             \<or> (\<exists>s text. snd a = Response s text \<and> (s \<noteq> 200 \<or> parse_trig env text = None))"
    by (simp add: try_body_None)
  from tr have 4: "\<forall>g. r = Some g \<longrightarrow>
             tr \<noteq> [] \<and> (\<exists>text. snd (last tr) = Response 200 text \<and> parse_trig env text = Some g)"
    by (auto simp: try_body_Some)
  have 5: "r = None \<longrightarrow>
             map fst tr = ?eps
             \<and> (\<forall>a\<in>set tr.
                   snd a = Raised
                   \<or> (\<exists>s text. snd a = Response s text \<and> (s \<noteq> 200 \<or> parse_trig env text = None)))"
  proof
    assume n: "r = None"
    with tr have l: "length tr = length ?eps"
      and f: "\<forall>a\<in>set tr. try_body env (snd a) = None" by simp_all
    from 1 l have "map fst tr = ?eps" by simp
    with f show "map fst tr = ?eps
             \<and> (\<forall>a\<in>set tr.
                   snd a = Raised
                   \<or> (\<exists>s text. snd a = Response s text \<and> (s \<noteq> 200 \<or> parse_trig env text = None)))"
      by (simp add: try_body_None)
  qed
  from 1 2 3 4 5 show ?thesis by (intro conjI)
qed

theorem fetch_nanopub_first_success_witness:
  "fetch_nanopub
       \<lparr>http_get = (\<lambda>url (w::nat).
            (if url = ''https://server.np.trustyuri.net/RAabc.trig'' then Response 200 ''body 3''
             else if url = ''https://np.petapico.org/RAabc.trig'' then Raised
             else Response 404 [], Suc w)),
         parse_trig = (\<lambda>text. if text = ''body 3''
            then Some [\<lparr>q_subject = ''s'', q_predicate = ''p'', q_object = ''o'',
                        q_literal = False, q_graph = ''g''\<rparr>] else None),
         list_of_set = remdups\<rparr>
       ''https://example.org/np/RAabc'' ''trig'' 0
     = (Some [\<lparr>q_subject = ''s'', q_predicate = ''p'', q_object = ''o'',
                q_literal = False, q_graph = ''g''\<rparr>],
        3,
        [(''https://example.org/np/RAabc.trig'', Response 404 []),
         (''https://np.petapico.org/RAabc.trig'', Raised),
         (''https://server.np.trustyuri.net/RAabc.trig'', Response 200 ''body 3'')])
   \<and> map fst
        [(''https://example.org/np/RAabc.trig'', Response 404 []),
         (''https://np.petapico.org/RAabc.trig'', Raised),
         (''https://server.np.trustyuri.net/RAabc.trig'', Response 200 ''body 3'')]
     = take 3 (endpoints ''https://example.org/np/RAabc'' ''trig'')
   \<and> (\<exists>text. Response 200 ''body 3'' = Response 200 text
        \<and> (if text = ''body 3''
            then Some [\<lparr>q_subject = ''s'', q_predicate = ''p'', q_object = ''o'',
                        q_literal = False, q_graph = ''g''\<rparr>] else None)
          = Some [\<lparr>q_subject = ''s'', q_predicate = ''p'', q_object = ''o'',
                    q_literal = False, q_graph = ''g''\<rparr>])"
proof -
  let ?env = "\<lparr>http_get = (\<lambda>url (w::nat).
            (if url = ''https://server.np.trustyuri.net/RAabc.trig'' then Response 200 ''body 3''
             else if url = ''https://np.petapico.org/RAabc.trig'' then Raised
             else Response 404 [], Suc w)),
         parse_trig = (\<lambda>text. if text = ''body 3''
            then Some [\<lparr>q_subject = ''s'', q_predicate = ''p'', q_object = ''o'',
                        q_literal = False, q_graph = ''g''\<rparr>] else None),
         list_of_set = remdups\<rparr>"
  let ?g = "[\<lparr>q_subject = ''s'', q_predicate = ''p'', q_object = ''o'',
                q_literal = False, q_graph = ''g''\<rparr>]"
  let ?tr = "[(''https://example.org/np/RAabc.trig'', Response 404 []),
         (''https://np.petapico.org/RAabc.trig'', Raised),
         (''https://server.np.trustyuri.net/RAabc.trig'', Response 200 ''body 3'')]"
  have eq: "fetch_nanopub ?env ''https://example.org/np/RAabc'' ''trig'' 0 = (Some ?g, 3, ?tr)"
    by code_simp
  note inst = fetch_nanopub_first_success [OF eq]
  have a: "map fst ?tr = take (length ?tr) (endpoints ''https://example.org/np/RAabc'' ''trig'')"
    by (rule inst [THEN conjunct1])
  have b: "\<forall>g. Some ?g = Some g \<longrightarrow>
             ?tr \<noteq> [] \<and> (\<exists>text. snd (last ?tr) = Response 200 text \<and> parse_trig ?env text = Some g)"
    by (rule inst [THEN conjunct2, THEN conjunct2, THEN conjunct2, THEN conjunct1])
  have len: "length ?tr = 3" by simp
  from a have a': "map fst ?tr = take 3 (endpoints ''https://example.org/np/RAabc'' ''trig'')"
    by (simp only: len)
  from b have "\<exists>text. snd (last ?tr) = Response 200 text \<and> parse_trig ?env text = Some ?g"
    by blast
  then have b': "\<exists>text. Response 200 ''body 3'' = Response 200 text
        \<and> (if text = ''body 3'' then Some ?g else None) = Some ?g"
    by simp
  from eq a' b' show ?thesis by (intro conjI)
qed

lemma set_index_objects:
  "set (index_objects g) = {q_object q | q. q \<in> set g \<and> q_predicate q \<in> set index_predicate_uris}"
  by (auto simp: index_objects_def)

lemma set_index_predicate_uris:
  "set index_predicate_uris =
     {''http://purl.org/nanopub/x/includesElement'',
      ''http://purl.org/nanopub/x/hasElement'',
      ''http://purl.org/nanopub/x/includes'',
      ''https://w3id.org/fair/fip/terms/has-declaration''}"
  by (simp add: index_predicate_uris_def)

section \<open>Claims about the Index Resolver\<close>

text \<open>
  C3. \<open>list(set(xs))\<close> lists the elements of \<open>xs\<close> without repetition, in an order Python
  leaves open. Under that reading of \<open>list_of_set\<close>, the list returned by
  \<open>extract_declarations_from_index\<close> has no duplicates and its elements are exactly the
  objects of the quads whose predicate equals one of the four index predicate URIs; a
  graph with no such quad gives the empty list.
\<close>

theorem extract_declarations_from_index_set:
  assumes "\<forall>xs. distinct (list_of_set env xs) \<and> set (list_of_set env xs) = set xs"
  shows "distinct (extract_declarations_from_index env g)
       \<and> set (extract_declarations_from_index env g) =
           {q_object q | q. q \<in> set g \<and> q_predicate q \<in>
              {''http://purl.org/nanopub/x/includesElement'',
               ''http://purl.org/nanopub/x/hasElement'',
               ''http://purl.org/nanopub/x/includes'',
               ''https://w3id.org/fair/fip/terms/has-declaration''}}
       \<and> ((\<forall>q\<in>set g. q_predicate q \<notin>
              {''http://purl.org/nanopub/x/includesElement'',
               ''http://purl.org/nanopub/x/hasElement'',
               ''http://purl.org/nanopub/x/includes'',
               ''https://w3id.org/fair/fip/terms/has-declaration''})
            \<longrightarrow> extract_declarations_from_index env g = [])"
proof -
  from assms have d: "distinct (extract_declarations_from_index env g)"
    by (simp add: extract_declarations_from_index_def)
  from assms have "set (extract_declarations_from_index env g) = set (index_objects g)"
    by (simp add: extract_declarations_from_index_def)
  then have "set (extract_declarations_from_index env g) =
      {q_object q | q. q \<in> set g \<and> q_predicate q \<in> set index_predicate_uris}"
    by (simp only: set_index_objects)
  then have s: "set (extract_declarations_from_index env g) =
           {q_object q | q. q \<in> set g \<and> q_predicate q \<in>
              {''http://purl.org/nanopub/x/includesElement'',
               ''http://purl.org/nanopub/x/hasElement'',
               ''http://purl.org/nanopub/x/includes'',
               ''https://w3id.org/fair/fip/terms/has-declaration''}}"
    by (simp only: set_index_predicate_uris)
  have e: "(\<forall>q\<in>set g. q_predicate q \<notin>
              {''http://purl.org/nanopub/x/includesElement'',
               ''http://purl.org/nanopub/x/hasElement'',
               ''http://purl.org/nanopub/x/includes'',
               ''https://w3id.org/fair/fip/terms/has-declaration''})
            \<longrightarrow> extract_declarations_from_index env g = []"
    unfolding set_index_predicate_uris [symmetric]
  proof
    assume "\<forall>q\<in>set g. q_predicate q \<notin> set index_predicate_uris"
    then have "index_objects g = []" by (simp add: index_objects_def filter_empty_conv)
    with assms have "set (extract_declarations_from_index env g) = {}"
      by (simp add: extract_declarations_from_index_def)
    then show "extract_declarations_from_index env g = []" by simp
  qed
  from d s e show ?thesis by (intro conjI)
qed

theorem extract_declarations_from_index_set_witness:
  "(\<forall>xs. distinct (list_of_set \<lparr>http_get = (\<lambda>url (w::nat). (Raised, w)),
                parse_trig = (\<lambda>text. None), list_of_set = remdups\<rparr> xs)
         \<and> set (list_of_set \<lparr>http_get = (\<lambda>url (w::nat). (Raised, w)),
                parse_trig = (\<lambda>text. None), list_of_set = remdups\<rparr> xs) = set xs)
   \<and> distinct (extract_declarations_from_index
        \<lparr>http_get = (\<lambda>url (w::nat). (Raised, w)),
          parse_trig = (\<lambda>text. None), list_of_set = remdups\<rparr>
        [\<lparr>q_subject = ''http://example.org/index'',
           q_predicate = ''http://purl.org/nanopub/x/includesElement'',
           q_object = ''https://w3id.org/np/RAd1'', q_literal = False, q_graph = ''a''\<rparr>,
         \<lparr>q_subject = ''http://example.org/index'',
           q_predicate = ''http://purl.org/nanopub/x/includesElement'',
           q_object = ''https://w3id.org/np/RAd1'', q_literal = False, q_graph = ''b''\<rparr>,
         \<lparr>q_subject = ''http://example.org/index'',
           q_predicate = ''https://w3id.org/fair/fip/terms/has-declaration'',
           q_object = ''https://w3id.org/np/RAd2'', q_literal = False, q_graph = ''a''\<rparr>,
         \<lparr>q_subject = ''http://example.org/index'',
           q_predicate = ''http://purl.org/nanopub/x/includesElementOf'',
           q_object = ''https://w3id.org/np/RAd3'', q_literal = False, q_graph = ''a''\<rparr>,
         \<lparr>q_subject = ''http://example.org/index'',
           q_predicate = ''http://www.w3.org/2000/01/rdf-schema#label'',
           q_object = ''https://w3id.org/np/RAd4'', q_literal = False, q_graph = ''a''\<rparr>])
   \<and> extract_declarations_from_index
        \<lparr>http_get = (\<lambda>url (w::nat). (Raised, w)),
          parse_trig = (\<lambda>text. None), list_of_set = remdups\<rparr>
        [\<lparr>q_subject = ''http://example.org/index'',
           q_predicate = ''http://purl.org/nanopub/x/includesElement'',
           q_object = ''https://w3id.org/np/RAd1'', q_literal = False, q_graph = ''a''\<rparr>,
         \<lparr>q_subject = ''http://example.org/index'',
           q_predicate = ''http://purl.org/nanopub/x/includesElement'',
           q_object = ''https://w3id.org/np/RAd1'', q_literal = False, q_graph = ''b''\<rparr>,
         \<lparr>q_subject = ''http://example.org/index'',
           q_predicate = ''https://w3id.org/fair/fip/terms/has-declaration'',
           q_object = ''https://w3id.org/np/RAd2'', q_literal = False, q_graph = ''a''\<rparr>,
         \<lparr>q_subject = ''http://example.org/index'',
           q_predicate = ''http://purl.org/nanopub/x/includesElementOf'',
           q_object = ''https://w3id.org/np/RAd3'', q_literal = False, q_graph = ''a''\<rparr>,
         \<lparr>q_subject = ''http://example.org/index'',
           q_predicate = ''http://www.w3.org/2000/01/rdf-schema#label'',
           q_object = ''https://w3id.org/np/RAd4'', q_literal = False, q_graph = ''a''\<rparr>]
      = [''https://w3id.org/np/RAd1'', ''https://w3id.org/np/RAd2'']"
proof -
  let ?env = "\<lparr>http_get = (\<lambda>url (w::nat). (Raised, w)),
          parse_trig = (\<lambda>text. None), list_of_set = remdups\<rparr>"
  let ?g = "[\<lparr>q_subject = ''http://example.org/index'',
           q_predicate = ''http://purl.org/nanopub/x/includesElement'',
           q_object = ''https://w3id.org/np/RAd1'', q_literal = False, q_graph = ''a''\<rparr>,
         \<lparr>q_subject = ''http://example.org/index'',
           q_predicate = ''http://purl.org/nanopub/x/includesElement'',
           q_object = ''https://w3id.org/np/RAd1'', q_literal = False, q_graph = ''b''\<rparr>,
         \<lparr>q_subject = ''http://example.org/index'',
           q_predicate = ''https://w3id.org/fair/fip/terms/has-declaration'',
           q_object = ''https://w3id.org/np/RAd2'', q_literal = False, q_graph = ''a''\<rparr>,
         \<lparr>q_subject = ''http://example.org/index'',
           q_predicate = ''http://purl.org/nanopub/x/includesElementOf'',
           q_object = ''https://w3id.org/np/RAd3'', q_literal = False, q_graph = ''a''\<rparr>,
         \<lparr>q_subject = ''http://example.org/index'',
           q_predicate = ''http://www.w3.org/2000/01/rdf-schema#label'',
           q_object = ''https://w3id.org/np/RAd4'', q_literal = False, q_graph = ''a''\<rparr>]"
  have h: "\<forall>xs. distinct (list_of_set ?env xs) \<and> set (list_of_set ?env xs) = set xs"
    by simp
  have d: "distinct (extract_declarations_from_index ?env ?g)"
    by (rule extract_declarations_from_index_set [OF h, THEN conjunct1])
  have v: "extract_declarations_from_index ?env ?g
             = [''https://w3id.org/np/RAd1'', ''https://w3id.org/np/RAd2'']"
    by code_simp
  from h d v show ?thesis by (intro conjI)
qed

lemma organize_by_principle_bucket:
  assumes "k \<in> set principle_keys"
  shows "organize_by_principle ds k =
     Some \<lparr>data = map decl_resource_info
               (filter (\<lambda>d. truthy (question_id d)
                          \<and> fst (question_id_parts (the (question_id d))) = k
                          \<and> str_upper (snd (question_id_parts (the (question_id d)))) \<noteq> ''MD'') ds),
           metadata = map decl_resource_info
               (filter (\<lambda>d. truthy (question_id d)
                          \<and> fst (question_id_parts (the (question_id d))) = k
                          \<and> str_upper (snd (question_id_parts (the (question_id d)))) = ''MD'') ds)\<rparr>"
proof (induction ds rule: rev_induct)
  case Nil
  show ?case using assms by (simp add: organize_by_principle_def empty_organized_lookup)
next
  case (snoc d ds)
  let ?org = "organize_by_principle ds"
  show ?case
  proof (cases "truthy (question_id d)")
    case False
    then have "organize_step d ?org = ?org" by (simp add: organize_step_def)
    with snoc False show ?thesis by (simp add: organize_by_principle_snoc)
  next
    case True
    then obtain q where q: "question_id d = Some q" "q \<noteq> []"
      by (auto simp: truthy_def split: option.splits)
    obtain p t where pt: "question_id_parts q = (p, t)" by (cases "question_id_parts q")
    show ?thesis
    proof (cases "p \<in> set principle_keys")
      case False
      then have "fst (question_id_parts q) \<notin> dom ?org"
        by (simp add: pt dom_organize_by_principle)
      then have "organize_step d ?org = ?org" by (rule organize_step_unknown [OF q(1)])
      moreover from False assms have "p \<noteq> k" by auto
      ultimately show ?thesis using snoc q pt by (simp add: organize_by_principle_snoc)
    next
      case pk: True
      then obtain b where b: "?org p = Some b" using organize_by_principle_Some by blast
      have st: "organize_step d ?org =
           ?org(p \<mapsto> (if str_upper t = ''MD''
                               then b\<lparr>metadata := metadata b @ [decl_resource_info d]\<rparr>
                               else b\<lparr>data := data b @ [decl_resource_info d]\<rparr>))"
        using organize_step_known [of d q p t ?org b] q pt b by simp
      show ?thesis
      proof (cases "p = k")
        case False
        with st snoc q pt True show ?thesis by (simp add: organize_by_principle_snoc)
      next
        case pk: True
        with b snoc have "b = \<lparr>data = map decl_resource_info
               (filter (\<lambda>d. truthy (question_id d)
                          \<and> fst (question_id_parts (the (question_id d))) = k
                          \<and> str_upper (snd (question_id_parts (the (question_id d)))) \<noteq> ''MD'') ds),
           metadata = map decl_resource_info
               (filter (\<lambda>d. truthy (question_id d)
                          \<and> fst (question_id_parts (the (question_id d))) = k
                          \<and> str_upper (snd (question_id_parts (the (question_id d)))) = ''MD'') ds)\<rparr>"
          by simp
        with st q pt True pk show ?thesis by (simp add: organize_by_principle_snoc)
      qed
    qed
  qed
qed

lemma fetch_declarations_truthy:
  assumes "fetch_declarations env uris w = (ds, w', fetched)"
  shows "\<forall>d\<in>set ds. truthy (question_id d)"
  using assms
proof (induction uris arbitrary: w ds w' fetched)
  case Nil
  then show ?case by simp
next
  case (Cons u us)
  obtain g w1 rq where f: "fetch_nanopub env u ''trig'' w = (g, w1, rq)"
    by (cases "fetch_nanopub env u ''trig'' w")
  obtain ds2 w2 f2 where r: "fetch_declarations env us w1 = (ds2, w2, f2)"
    by (cases "fetch_declarations env us w1")
  from Cons.IH [OF r] have "\<forall>d\<in>set ds2. truthy (question_id d)" .
  with Cons.prems f r show ?case by (auto split: if_splits)
qed

lemma fetch_declarations_fetched:
  assumes "fetch_declarations env uris w = (ds, w', fetched)"
  shows "map fst fetched = uris \<and> length ds \<le> length uris"
  using assms
proof (induction uris arbitrary: w ds w' fetched)
  case Nil
  then show ?case by simp
next
  case (Cons u us)
  obtain g w1 rq where f: "fetch_nanopub env u ''trig'' w = (g, w1, rq)"
    by (cases "fetch_nanopub env u ''trig'' w")
  obtain ds2 w2 f2 where r: "fetch_declarations env us w1 = (ds2, w2, f2)"
    by (cases "fetch_declarations env us w1")
  from Cons.IH [OF r] have "map fst f2 = us \<and> length ds2 \<le> length us" .
  with Cons.prems f r show ?case by (auto split: if_splits)
qed

lemma fetch_from_index_truthy:
  assumes "fetch_from_index env u w = (ds, w', fetched)"
  shows "\<forall>d\<in>set ds. truthy (question_id d)"
proof -
  obtain g w1 rq where f: "fetch_nanopub env u ''trig'' w = (g, w1, rq)"
    by (cases "fetch_nanopub env u ''trig'' w")
  show ?thesis
  proof (cases "graph_truthy g")
    case True
    with assms f have "fetch_declarations env (take 50 (extract_declarations_from_index env (the g))) w1
        = (ds, w', fetched)" by (simp add: fetch_from_index_def)
    then show ?thesis by (rule fetch_declarations_truthy)
  next
    case False
    with assms f have "ds = []" by (simp add: fetch_from_index_def)
    then show ?thesis by simp
  qed
qed

lemma fetch_from_index_bound:
  assumes "fetch_from_index env u w = (ds, w', fetched)"
  shows "length fetched \<le> 50 \<and> length ds \<le> 50"
proof -
  obtain g w1 rq where f: "fetch_nanopub env u ''trig'' w = (g, w1, rq)"
    by (cases "fetch_nanopub env u ''trig'' w")
  show ?thesis
  proof (cases "graph_truthy g")
    case True
    with assms f have "fetch_declarations env (take 50 (extract_declarations_from_index env (the g))) w1
        = (ds, w', fetched)" by (simp add: fetch_from_index_def)
    from fetch_declarations_fetched [OF this]
    have "map fst fetched = take 50 (extract_declarations_from_index env (the g))"
      and l: "length ds \<le> length (take 50 (extract_declarations_from_index env (the g)))"
      by simp_all
    then have "length fetched = length (take 50 (extract_declarations_from_index env (the g)))"
      by (metis length_map)
    with l show ?thesis by simp
  next
    case False
    with assms f have "ds = []" "fetched = []" by (simp_all add: fetch_from_index_def)
    then show ?thesis by simp
  qed
qed

lemma parse_fip_header_index:
  "\<exists>info. parse_fip_header g = Inr info
     \<and> info ''declaration_index'' =
         Some (case filter (\<lambda>q. str_contains ''declaration-index'' (str_lower (q_predicate q))) g of
                 [] \<Rightarrow> PNone | ms \<Rightarrow> PStr (q_object (last ms)))"
proof -
  have sub: "{''label'', ''description'', ''version'', ''declared_by'', ''declaration_index'',
      ''creators'', ''created'', ''wizard_source''} \<subseteq> dom initial_fip_info"
    by (simp add: dom_initial_fip_info)
  from header_loop_result [where info = initial_fip_info and cs = "[]" and g = g,
      OF initial_fip_info_creators sub]
  obtain info where r: "header_loop g initial_fip_info = Inr info"
    and x: "info ''declaration_index'' =
         (case filter (\<lambda>q. str_contains ''declaration-index'' (str_lower (q_predicate q))) g of
            [] \<Rightarrow> initial_fip_info ''declaration_index''
          | ms \<Rightarrow> Some (PStr (q_object (last ms))))"
    by blast
  from x have "info ''declaration_index'' =
         Some (case filter (\<lambda>q. str_contains ''declaration-index'' (str_lower (q_predicate q))) g of
                 [] \<Rightarrow> PNone | ms \<Rightarrow> PStr (q_object (last ms)))"
    by (simp add: initial_fip_info_def split: list.splits)
  with r show ?thesis by (auto simp: parse_fip_header_def)
qed

lemma read_fip_from_file_index:
  assumes "parse_fip_header hg = Inr info" and "info ''declaration_index'' = Some (PStr u)"
    and "u \<noteq> []"
  shows "read_fip_from_file env hg True w =
     (case fetch_from_index env u w of
        (ds, w', fetched) \<Rightarrow>
          Inr \<lparr>run_fip_info = info, run_declarations = ds,
               run_organized = organize_by_principle ds,
               run_fetched = fetched, run_world = w'\<rparr>)"
  using assms by (simp add: read_fip_from_file_def get_or_none_def py_truthy_def)

lemma read_fip_from_file_local:
  assumes "parse_fip_header hg = Inr info"
    and "\<not> fetch_remote \<or> info ''declaration_index'' = Some PNone
           \<or> info ''declaration_index'' = Some (PStr [])"
  shows "read_fip_from_file env hg fetch_remote w =
          Inr \<lparr>run_fip_info = info, run_declarations = [],
               run_organized = organize_by_principle [],
               run_fetched = [], run_world = w\<rparr>"
  using assms by (auto simp: read_fip_from_file_def get_or_none_def py_truthy_def)

lemma read_fip_from_file_run:
  "\<exists>run. read_fip_from_file env hg fetch_remote w = Inr run
     \<and> run_organized run = organize_by_principle (run_declarations run)
     \<and> (run_declarations run = [] \<and> run_fetched run = []
         \<or> (\<exists>u. fetch_from_index env u w = (run_declarations run, run_world run, run_fetched run)))"
proof -
  from parse_fip_header_index [of hg] obtain info where p: "parse_fip_header hg = Inr info"
    and x: "info ''declaration_index'' = Some PNone \<or> (\<exists>s. info ''declaration_index'' = Some (PStr s))"
    by (auto split: list.splits)
  show ?thesis
  proof (cases "fetch_remote \<and> (\<exists>u. info ''declaration_index'' = Some (PStr u) \<and> u \<noteq> [])")
    case True
    then obtain u where u: "info ''declaration_index'' = Some (PStr u)" "u \<noteq> []" and fr: fetch_remote
      by blast
    obtain ds w' fetched where f: "fetch_from_index env u w = (ds, w', fetched)"
      by (cases "fetch_from_index env u w")
    from read_fip_from_file_index [OF p u, of env w] f fr
    have "read_fip_from_file env hg fetch_remote w =
            Inr \<lparr>run_fip_info = info, run_declarations = ds,
               run_organized = organize_by_principle ds,
               run_fetched = fetched, run_world = w'\<rparr>" by simp
    with f show ?thesis by force
  next
    case False
    with x have "\<not> fetch_remote \<or> info ''declaration_index'' = Some PNone
           \<or> info ''declaration_index'' = Some (PStr [])" by auto
    from read_fip_from_file_local [OF p this, of env w] show ?thesis by simp
  qed
qed


lemma fetch_nanopub_graph:
  assumes "fetch_nanopub env u format_type w = (r, w', tr)"
  shows "tr \<noteq> [] \<and> r = try_body env (snd (last tr))"
proof -
  from assms have t: "try_endpoints env (endpoints u format_type) w = (r, w', tr)"
    by (simp add: fetch_nanopub_def)
  note tr = try_endpoints_trace [OF t]
  show ?thesis
  proof (cases r)
    case (Some g)
    with tr show ?thesis by simp
  next
    case None
    with tr have l: "length tr = length (endpoints u format_type)"
      and f: "\<forall>a\<in>set tr. try_body env (snd a) = None" by simp_all
    from l have ne: "tr \<noteq> []" by (auto simp: length_endpoints)
    then have "last tr \<in> set tr" by simp
    with f have "try_body env (snd (last tr)) = None" by blast
    with ne None show ?thesis by simp
  qed
qed

lemma fetch_declarations_kept:
  assumes "fetch_declarations env uris w = (ds, w', fetched)"
  shows "ds = filter (\<lambda>d. truthy (question_id d))
               (map (\<lambda>f. parse_declaration (the (try_body env (snd (last (snd f))))))
                 (filter (\<lambda>f. graph_truthy (try_body env (snd (last (snd f))))) fetched))
       \<and> (\<forall>f\<in>set fetched. \<exists>w0 w1.
             fetch_nanopub env (fst f) ''trig'' w0 = (try_body env (snd (last (snd f))), w1, snd f))"
  using assms
proof (induction uris arbitrary: w ds w' fetched)
  case Nil
  then show ?case by simp
next
  case (Cons u us)
  obtain g w1 rq where f: "fetch_nanopub env u ''trig'' w = (g, w1, rq)"
    by (cases "fetch_nanopub env u ''trig'' w")
  obtain ds2 w2 f2 where r: "fetch_declarations env us w1 = (ds2, w2, f2)"
    by (cases "fetch_declarations env us w1")
  from fetch_nanopub_graph [OF f] have g: "g = try_body env (snd (last rq))" by simp
  note IH = Cons.IH [OF r]
  from Cons.prems f r have ds: "ds = (if graph_truthy g \<and> truthy (question_id (parse_declaration (the g)))
                 then [parse_declaration (the g)] else []) @ ds2"
    and fe: "fetched = (u, rq) # f2" by simp_all
  have 1: "ds = filter (\<lambda>d. truthy (question_id d))
               (map (\<lambda>f. parse_declaration (the (try_body env (snd (last (snd f))))))
                 (filter (\<lambda>f. graph_truthy (try_body env (snd (last (snd f))))) fetched))"
    using IH by (simp add: ds fe g)
  have "fetch_nanopub env u ''trig'' w = (try_body env (snd (last rq)), w1, rq)"
    using f g by simp
  then have "\<exists>w0 w1. fetch_nanopub env u ''trig'' w0 = (try_body env (snd (last rq)), w1, rq)"
    by blast
  with IH have 2: "\<forall>f\<in>set fetched. \<exists>w0 w1.
             fetch_nanopub env (fst f) ''trig'' w0 = (try_body env (snd (last (snd f))), w1, snd f)"
    by (simp add: fe)
  from 1 2 show ?case by (intro conjI)
qed

lemma fetch_from_index_kept:
  assumes "fetch_from_index env u w = (ds, w', fetched)"
  shows "ds = filter (\<lambda>d. truthy (question_id d))
               (map (\<lambda>f. parse_declaration (the (try_body env (snd (last (snd f))))))
                 (filter (\<lambda>f. graph_truthy (try_body env (snd (last (snd f))))) fetched))
       \<and> (\<forall>f\<in>set fetched. \<exists>w0 w1.
             fetch_nanopub env (fst f) ''trig'' w0 = (try_body env (snd (last (snd f))), w1, snd f))"
proof -
  obtain g w1 rq where f: "fetch_nanopub env u ''trig'' w = (g, w1, rq)"
    by (cases "fetch_nanopub env u ''trig'' w")
  show ?thesis
  proof (cases "graph_truthy g")
    case True
    with assms f have "fetch_declarations env (take 50 (extract_declarations_from_index env (the g))) w1
        = (ds, w', fetched)" by (simp add: fetch_from_index_def)
    then show ?thesis by (rule fetch_declarations_kept)
  next
    case False
    with assms f have "ds = []" "fetched = []" by (simp_all add: fetch_from_index_def)
    then show ?thesis by simp
  qed
qed


section \<open>Claims about the file/network pipeline\<close>

text \<open>
  C6 (as amended). In every run the table handed to the report has exactly the 15 keys.
  For each declaration URI the run fetched, the graph \<open>fetch_nanopub\<close> returned is the
  parsed body of the last request made for it. The parsed declarations are those of the
  fetched graphs that hold a triple, in order, and the run keeps exactly the ones whose
  question id is non-empty: one without is dropped, every other one is kept. The bucket of
  a key holds, in order, the entries of exactly the kept declarations whose principle (the
  question id up to its last \<open>-\<close>, or the whole id) is that key: in the metadata list
  when the upper-cased type suffix is \<open>MD\<close>, else in the data list. So a parsed
  declaration contributes no entry exactly when its question id is missing or empty or its
  principle is none of the 15 keys, and one entry otherwise.
\<close>

theorem read_fip_from_file_organized:
  assumes "read_fip_from_file env hg fetch_remote w = Inr run"
  shows "dom (run_organized run) =
     {''F1'', ''F2'', ''F3'', ''F4'', ''A1'', ''A1.1'', ''A1.2'', ''A2'',
      ''I1'', ''I2'', ''I3'', ''R1'', ''R1.1'', ''R1.2'', ''R1.3''}
   \<and> (\<forall>f\<in>set (run_fetched run). \<exists>w0 w1.
         fetch_nanopub env (fst f) ''trig'' w0 = (try_body env (snd (last (snd f))), w1, snd f))
   \<and> run_declarations run =
       filter (\<lambda>d. truthy (question_id d))
         (map (\<lambda>f. parse_declaration (the (try_body env (snd (last (snd f))))))
           (filter (\<lambda>f. graph_truthy (try_body env (snd (last (snd f))))) (run_fetched run)))
   \<and> (\<forall>d\<in>set (run_declarations run). truthy (question_id d))
   \<and> (\<forall>k\<in>{''F1'', ''F2'', ''F3'', ''F4'', ''A1'', ''A1.1'', ''A1.2'', ''A2'',
      ''I1'', ''I2'', ''I3'', ''R1'', ''R1.1'', ''R1.2'', ''R1.3''}.
         run_organized run k =
           Some \<lparr>data = map decl_resource_info
               (filter (\<lambda>d. fst (question_id_parts (the (question_id d))) = k
                          \<and> str_upper (snd (question_id_parts (the (question_id d)))) \<noteq> ''MD'') (run_declarations run)),
           metadata = map decl_resource_info
               (filter (\<lambda>d. fst (question_id_parts (the (question_id d))) = k
                          \<and> str_upper (snd (question_id_parts (the (question_id d)))) = ''MD'') (run_declarations run))\<rparr>)"
proof -
  from read_fip_from_file_run [of env hg fetch_remote w] assms
  have o: "run_organized run = organize_by_principle (run_declarations run)"
    and s: "run_declarations run = [] \<and> run_fetched run = []
         \<or> (\<exists>u. fetch_from_index env u w = (run_declarations run, run_world run, run_fetched run))"
    by auto
  have 1: "dom (run_organized run) =
     {''F1'', ''F2'', ''F3'', ''F4'', ''A1'', ''A1.1'', ''A1.2'', ''A2'',
      ''I1'', ''I2'', ''I3'', ''R1'', ''R1.1'', ''R1.2'', ''R1.3''}"
    by (simp only: o dom_organize_by_principle set_principle_keys)
  have 2: "\<forall>d\<in>set (run_declarations run). truthy (question_id d)"
    using s fetch_from_index_truthy by fastforce
  have kept: "run_declarations run =
       filter (\<lambda>d. truthy (question_id d))
         (map (\<lambda>f. parse_declaration (the (try_body env (snd (last (snd f))))))
           (filter (\<lambda>f. graph_truthy (try_body env (snd (last (snd f))))) (run_fetched run)))
     \<and> (\<forall>f\<in>set (run_fetched run). \<exists>w0 w1.
         fetch_nanopub env (fst f) ''trig'' w0 = (try_body env (snd (last (snd f))), w1, snd f))"
    using s
  proof
    assume "run_declarations run = [] \<and> run_fetched run = []"
    then show ?thesis by simp
  next
    assume "\<exists>u. fetch_from_index env u w = (run_declarations run, run_world run, run_fetched run)"
    then obtain u
      where "fetch_from_index env u w = (run_declarations run, run_world run, run_fetched run)" ..
    then show ?thesis by (rule fetch_from_index_kept)
  qed
  note 4 = kept [THEN conjunct2] and 5 = kept [THEN conjunct1]
  have 3: "\<forall>k\<in>{''F1'', ''F2'', ''F3'', ''F4'', ''A1'', ''A1.1'', ''A1.2'', ''A2'',
      ''I1'', ''I2'', ''I3'', ''R1'', ''R1.1'', ''R1.2'', ''R1.3''}.
         run_organized run k =
           Some \<lparr>data = map decl_resource_info
               (filter (\<lambda>d. fst (question_id_parts (the (question_id d))) = k
                          \<and> str_upper (snd (question_id_parts (the (question_id d)))) \<noteq> ''MD'') (run_declarations run)),
           metadata = map decl_resource_info
               (filter (\<lambda>d. fst (question_id_parts (the (question_id d))) = k
                          \<and> str_upper (snd (question_id_parts (the (question_id d)))) = ''MD'') (run_declarations run))\<rparr>"
  proof
    fix k assume "k \<in> {''F1'', ''F2'', ''F3'', ''F4'', ''A1'', ''A1.1'', ''A1.2'', ''A2'',
      ''I1'', ''I2'', ''I3'', ''R1'', ''R1.1'', ''R1.2'', ''R1.3''}"
    then have k: "k \<in> set principle_keys" by (simp only: set_principle_keys)
    have a: "filter (\<lambda>d. truthy (question_id d)
                          \<and> fst (question_id_parts (the (question_id d))) = k
                          \<and> str_upper (snd (question_id_parts (the (question_id d)))) \<noteq> ''MD'')
               (run_declarations run)
           = filter (\<lambda>d. fst (question_id_parts (the (question_id d))) = k
                          \<and> str_upper (snd (question_id_parts (the (question_id d)))) \<noteq> ''MD'')
               (run_declarations run)"
      using 2 by (intro filter_cong) auto
    have b: "filter (\<lambda>d. truthy (question_id d)
                          \<and> fst (question_id_parts (the (question_id d))) = k
                          \<and> str_upper (snd (question_id_parts (the (question_id d)))) = ''MD'')
               (run_declarations run)
           = filter (\<lambda>d. fst (question_id_parts (the (question_id d))) = k
                          \<and> str_upper (snd (question_id_parts (the (question_id d)))) = ''MD'')
               (run_declarations run)"
      using 2 by (intro filter_cong) auto
    show "run_organized run k =
           Some \<lparr>data = map decl_resource_info
               (filter (\<lambda>d. fst (question_id_parts (the (question_id d))) = k
                          \<and> str_upper (snd (question_id_parts (the (question_id d)))) \<noteq> ''MD'') (run_declarations run)),
           metadata = map decl_resource_info
               (filter (\<lambda>d. fst (question_id_parts (the (question_id d))) = k
                          \<and> str_upper (snd (question_id_parts (the (question_id d)))) = ''MD'') (run_declarations run))\<rparr>"
      unfolding o organize_by_principle_bucket [OF k] a b ..
  qed
  from 1 4 5 2 3 show ?thesis by (intro conjI)
qed

theorem read_fip_from_file_organized_witness:
  "\<exists>run. read_fip_from_file
       \<lparr>http_get = (\<lambda>url (w::nat).
          (if url = ''https://example.org/np/RAindex.trig'' then Response 200 ''index''
           else if url = ''https://example.org/np/RAdecl.trig'' then Response 200 ''decl''
           else Response 404 [], Suc w)),
        parse_trig = (\<lambda>text.
          if text = ''index'' then Some [\<lparr>q_subject = ''https://example.org/np/RAindex'',
          q_predicate = ''http://purl.org/nanopub/x/includesElement'',
          q_object = ''https://example.org/np/RAdecl'', q_literal = False,
          q_graph = ''https://example.org/np/RAindex#assertion''\<rparr>]
          else if text = ''decl'' then Some [\<lparr>q_subject = ''https://example.org/np/RAdecl#declaration'',
          q_predicate = ''https://w3id.org/fair/fip/terms/refers-to-question'',
          q_object = ''https://w3id.org/fair/fip/terms/FIP-Question-F1-D'', q_literal = False,
          q_graph = ''https://example.org/np/RAdecl#assertion''\<rparr>,
        \<lparr>q_subject = ''https://example.org/np/RAdecl#declaration'',
          q_predicate = ''https://w3id.org/fair/fip/terms/declares-current-use-of'',
          q_object = ''https://example.org/ark'', q_literal = False,
          q_graph = ''https://example.org/np/RAdecl#assertion''\<rparr>]
          else None),
        list_of_set = remdups\<rparr>
       [\<lparr>q_subject = ''http://example.org/fip'',
          q_predicate = ''https://w3id.org/fair/fip/terms/declaration-index'',
          q_object = ''https://example.org/np/RAindex'', q_literal = False,
          q_graph = ''http://example.org/fip#assertion''\<rparr>] True 0 = Inr run
     \<and> run_declarations run = [\<lparr>question = Some ''https://w3id.org/fair/fip/terms/FIP-Question-F1-D'',
          question_id = Some ''F1-D'', resource_label = Some ''ark'',
          resource_uri = Some ''https://example.org/ark'', resource_type = ''current''\<rparr>]
     \<and> dom (run_organized run) =
     {''F1'', ''F2'', ''F3'', ''F4'', ''A1'', ''A1.1'', ''A1.2'', ''A2'',
      ''I1'', ''I2'', ''I3'', ''R1'', ''R1.1'', ''R1.2'', ''R1.3''}
     \<and> run_organized run ''F1'' = Some \<lparr>data = [\<lparr>ri_label = Some ''ark'', ri_uri = Some ''https://example.org/ark'', ri_type = ''current''\<rparr>], metadata = []\<rparr>"
proof -
  let ?env = "\<lparr>http_get = (\<lambda>url (w::nat).
          (if url = ''https://example.org/np/RAindex.trig'' then Response 200 ''index''
           else if url = ''https://example.org/np/RAdecl.trig'' then Response 200 ''decl''
           else Response 404 [], Suc w)),
        parse_trig = (\<lambda>text.
          if text = ''index'' then Some [\<lparr>q_subject = ''https://example.org/np/RAindex'',
          q_predicate = ''http://purl.org/nanopub/x/includesElement'',
          q_object = ''https://example.org/np/RAdecl'', q_literal = False,
          q_graph = ''https://example.org/np/RAindex#assertion''\<rparr>]
          else if text = ''decl'' then Some [\<lparr>q_subject = ''https://example.org/np/RAdecl#declaration'',
          q_predicate = ''https://w3id.org/fair/fip/terms/refers-to-question'',
          q_object = ''https://w3id.org/fair/fip/terms/FIP-Question-F1-D'', q_literal = False,
          q_graph = ''https://example.org/np/RAdecl#assertion''\<rparr>,
        \<lparr>q_subject = ''https://example.org/np/RAdecl#declaration'',
          q_predicate = ''https://w3id.org/fair/fip/terms/declares-current-use-of'',
          q_object = ''https://example.org/ark'', q_literal = False,
          q_graph = ''https://example.org/np/RAdecl#assertion''\<rparr>]
          else None),
        list_of_set = remdups\<rparr>"
  let ?hg = "[\<lparr>q_subject = ''http://example.org/fip'',
          q_predicate = ''https://w3id.org/fair/fip/terms/declaration-index'',
          q_object = ''https://example.org/np/RAindex'', q_literal = False,
          q_graph = ''http://example.org/fip#assertion''\<rparr>]"
  let ?d = "\<lparr>question = Some ''https://w3id.org/fair/fip/terms/FIP-Question-F1-D'',
          question_id = Some ''F1-D'', resource_label = Some ''ark'',
          resource_uri = Some ''https://example.org/ark'', resource_type = ''current''\<rparr>"
  have c: "(case filter (\<lambda>q. str_contains ''declaration-index'' (str_lower (q_predicate q))) ?hg of
               [] \<Rightarrow> PNone | ms \<Rightarrow> PStr (q_object (last ms))) = PStr ''https://example.org/np/RAindex''"
    by code_simp
  from parse_fip_header_index [of ?hg] obtain info
    where p: "parse_fip_header ?hg = Inr info"
      and "info ''declaration_index'' =
         Some (case filter (\<lambda>q. str_contains ''declaration-index'' (str_lower (q_predicate q))) ?hg of
                 [] \<Rightarrow> PNone | ms \<Rightarrow> PStr (q_object (last ms)))"
    by (elim exE conjE)
  then have x: "info ''declaration_index'' = Some (PStr ''https://example.org/np/RAindex'')"
    by (simp only: c)
  have ne: "''https://example.org/np/RAindex'' \<noteq> []" by simp
  have f: "fetch_from_index ?env ''https://example.org/np/RAindex'' 0 = ([?d], 2, [(''https://example.org/np/RAdecl'',
          [(''https://example.org/np/RAdecl.trig'', Response 200 ''decl'')])])"
    by code_simp
  have r: "read_fip_from_file ?env ?hg True 0 =
      Inr \<lparr>run_fip_info = info, run_declarations = [?d],
           run_organized = organize_by_principle [?d],
           run_fetched = [(''https://example.org/np/RAdecl'',
          [(''https://example.org/np/RAdecl.trig'', Response 200 ''decl'')])], run_world = 2\<rparr>"
    unfolding read_fip_from_file_index [OF p x ne] f by simp

  note inst = read_fip_from_file_organized [OF r]
  have 1: "dom (organize_by_principle [?d]) =
     {''F1'', ''F2'', ''F3'', ''F4'', ''A1'', ''A1.1'', ''A1.2'', ''A2'',
      ''I1'', ''I2'', ''I3'', ''R1'', ''R1.1'', ''R1.2'', ''R1.3''}"
    using inst [THEN conjunct1] by simp
  have m: "''F1'' \<in> {''F1'', ''F2'', ''F3'', ''F4'', ''A1'', ''A1.1'', ''A1.2'', ''A2'',
      ''I1'', ''I2'', ''I3'', ''R1'', ''R1.1'', ''R1.2'', ''R1.3''}" by simp
  have "organize_by_principle [?d] ''F1'' =
           Some \<lparr>data = map decl_resource_info
               (filter (\<lambda>d. fst (question_id_parts (the (question_id d))) = ''F1''
                          \<and> str_upper (snd (question_id_parts (the (question_id d)))) \<noteq> ''MD'') [?d]),
           metadata = map decl_resource_info
               (filter (\<lambda>d. fst (question_id_parts (the (question_id d))) = ''F1''
                          \<and> str_upper (snd (question_id_parts (the (question_id d)))) = ''MD'') [?d])\<rparr>"
    using inst [THEN conjunct2, THEN conjunct2, THEN conjunct2, THEN conjunct2, THEN bspec, OF m]
    by simp
  moreover have "map decl_resource_info
               (filter (\<lambda>d. fst (question_id_parts (the (question_id d))) = ''F1''
                          \<and> str_upper (snd (question_id_parts (the (question_id d)))) \<noteq> ''MD'') [?d])
       = [\<lparr>ri_label = Some ''ark'', ri_uri = Some ''https://example.org/ark'', ri_type = ''current''\<rparr>]" by code_simp
  moreover have "map decl_resource_info
               (filter (\<lambda>d. fst (question_id_parts (the (question_id d))) = ''F1''
                          \<and> str_upper (snd (question_id_parts (the (question_id d)))) = ''MD'') [?d])
       = []" by code_simp
  ultimately have 2: "organize_by_principle [?d] ''F1'' = Some \<lparr>data = [\<lparr>ri_label = Some ''ark'', ri_uri = Some ''https://example.org/ark'', ri_type = ''current''\<rparr>], metadata = []\<rparr>"
    by (simp only:)
  show ?thesis
    by (rule exI [of _ "\<lparr>run_fip_info = info, run_declarations = [?d],
           run_organized = organize_by_principle [?d],
           run_fetched = [(''https://example.org/np/RAdecl'',
          [(''https://example.org/np/RAdecl.trig'', Response 200 ''decl'')])], run_world = 2\<rparr>"])
      (simp add: r 1 2)
qed

text \<open>
  C6 as stated fails: in this run the one declaration refers to the question
  \<open>FIP-Question-F5-D\<close>; it is parsed and kept with the question id \<open>F5-D\<close>, and the
  organized table is the table of no declarations at all.
\<close>

theorem read_fip_from_file_dropped_counterexample:
  "\<exists>run. read_fip_from_file
       \<lparr>http_get = (\<lambda>url (w::nat).
          (if url = ''https://example.org/np/RAindex.trig'' then Response 200 ''index''
           else if url = ''https://example.org/np/RAdecl.trig'' then Response 200 ''decl''
           else Response 404 [], Suc w)),
        parse_trig = (\<lambda>text.
          if text = ''index'' then Some [\<lparr>q_subject = ''https://example.org/np/RAindex'',
          q_predicate = ''http://purl.org/nanopub/x/includesElement'',
          q_object = ''https://example.org/np/RAdecl'', q_literal = False,
          q_graph = ''https://example.org/np/RAindex#assertion''\<rparr>]
          else if text = ''decl'' then Some [\<lparr>q_subject = ''https://example.org/np/RAdecl#declaration'',
          q_predicate = ''https://w3id.org/fair/fip/terms/refers-to-question'',
          q_object = ''https://w3id.org/fair/fip/terms/FIP-Question-F5-D'', q_literal = False,
          q_graph = ''https://example.org/np/RAdecl#assertion''\<rparr>,
        \<lparr>q_subject = ''https://example.org/np/RAdecl#declaration'',
          q_predicate = ''https://w3id.org/fair/fip/terms/declares-current-use-of'',
          q_object = ''https://example.org/ark'', q_literal = False,
          q_graph = ''https://example.org/np/RAdecl#assertion''\<rparr>]
          else None),
        list_of_set = remdups\<rparr>
       [\<lparr>q_subject = ''http://example.org/fip'',
          q_predicate = ''https://w3id.org/fair/fip/terms/declaration-index'',
          q_object = ''https://example.org/np/RAindex'', q_literal = False,
          q_graph = ''http://example.org/fip#assertion''\<rparr>] True 0 = Inr run
     \<and> run_declarations run = [\<lparr>question = Some ''https://w3id.org/fair/fip/terms/FIP-Question-F5-D'',
          question_id = Some ''F5-D'', resource_label = Some ''ark'',
          resource_uri = Some ''https://example.org/ark'', resource_type = ''current''\<rparr>]
     \<and> run_organized run = organize_by_principle []"
proof -
  let ?env = "\<lparr>http_get = (\<lambda>url (w::nat).
          (if url = ''https://example.org/np/RAindex.trig'' then Response 200 ''index''
           else if url = ''https://example.org/np/RAdecl.trig'' then Response 200 ''decl''
           else Response 404 [], Suc w)),
        parse_trig = (\<lambda>text.
          if text = ''index'' then Some [\<lparr>q_subject = ''https://example.org/np/RAindex'',
          q_predicate = ''http://purl.org/nanopub/x/includesElement'',
          q_object = ''https://example.org/np/RAdecl'', q_literal = False,
          q_graph = ''https://example.org/np/RAindex#assertion''\<rparr>]
          else if text = ''decl'' then Some [\<lparr>q_subject = ''https://example.org/np/RAdecl#declaration'',
          q_predicate = ''https://w3id.org/fair/fip/terms/refers-to-question'',
          q_object = ''https://w3id.org/fair/fip/terms/FIP-Question-F5-D'', q_literal = False,
          q_graph = ''https://example.org/np/RAdecl#assertion''\<rparr>,
        \<lparr>q_subject = ''https://example.org/np/RAdecl#declaration'',
          q_predicate = ''https://w3id.org/fair/fip/terms/declares-current-use-of'',
          q_object = ''https://example.org/ark'', q_literal = False,
          q_graph = ''https://example.org/np/RAdecl#assertion''\<rparr>]
          else None),
        list_of_set = remdups\<rparr>"
  let ?hg = "[\<lparr>q_subject = ''http://example.org/fip'',
          q_predicate = ''https://w3id.org/fair/fip/terms/declaration-index'',
          q_object = ''https://example.org/np/RAindex'', q_literal = False,
          q_graph = ''http://example.org/fip#assertion''\<rparr>]"
  let ?d = "\<lparr>question = Some ''https://w3id.org/fair/fip/terms/FIP-Question-F5-D'',
          question_id = Some ''F5-D'', resource_label = Some ''ark'',
          resource_uri = Some ''https://example.org/ark'', resource_type = ''current''\<rparr>"
  have c: "(case filter (\<lambda>q. str_contains ''declaration-index'' (str_lower (q_predicate q))) ?hg of
               [] \<Rightarrow> PNone | ms \<Rightarrow> PStr (q_object (last ms))) = PStr ''https://example.org/np/RAindex''"
    by code_simp
  from parse_fip_header_index [of ?hg] obtain info
    where p: "parse_fip_header ?hg = Inr info"
      and "info ''declaration_index'' =
         Some (case filter (\<lambda>q. str_contains ''declaration-index'' (str_lower (q_predicate q))) ?hg of
                 [] \<Rightarrow> PNone | ms \<Rightarrow> PStr (q_object (last ms)))"
    by (elim exE conjE)
  then have x: "info ''declaration_index'' = Some (PStr ''https://example.org/np/RAindex'')"
    by (simp only: c)
  have ne: "''https://example.org/np/RAindex'' \<noteq> []" by simp
  have f: "fetch_from_index ?env ''https://example.org/np/RAindex'' 0 = ([?d], 2, [(''https://example.org/np/RAdecl'',
          [(''https://example.org/np/RAdecl.trig'', Response 200 ''decl'')])])"
    by code_simp
  have r: "read_fip_from_file ?env ?hg True 0 =
      Inr \<lparr>run_fip_info = info, run_declarations = [?d],
           run_organized = organize_by_principle [?d],
           run_fetched = [(''https://example.org/np/RAdecl'',
          [(''https://example.org/np/RAdecl.trig'', Response 200 ''decl'')])], run_world = 2\<rparr>"
    unfolding read_fip_from_file_index [OF p x ne] f by simp

  have q: "question_id ?d = Some ''F5-D''" by simp
  have "fst (question_id_parts ''F5-D'') \<notin> set principle_keys" by code_simp
  then have "fst (question_id_parts ''F5-D'') \<notin> dom (organize_by_principle [])"
    by (simp add: dom_organize_by_principle)
  then have "organize_step ?d (organize_by_principle []) = organize_by_principle []"
    by (rule organize_step_unknown [OF q])
  then have e: "organize_by_principle [?d] = organize_by_principle []"
    using organize_by_principle_snoc [of "[]" ?d] by simp
  show ?thesis
    by (rule exI [of _ "\<lparr>run_fip_info = info, run_declarations = [?d],
           run_organized = organize_by_principle [?d],
           run_fetched = [(''https://example.org/np/RAdecl'',
          [(''https://example.org/np/RAdecl.trig'', Response 200 ''decl'')])], run_world = 2\<rparr>"])
      (simp add: r e)
qed

text \<open>
  C8. Every run completes, and it fetches at most 50 declarations whatever the index
  holds. When the header names a declaration index and the index is fetched with at least
  one triple, the declaration URIs fetched are exactly the first 50 of the list the index
  resolver returned, in order, and the run's declarations are what the loop yields on
  these alone; the URIs after the 50th are never requested.
\<close>

theorem read_fip_from_file_cap:
  "(\<exists>run. read_fip_from_file env hg fetch_remote w = Inr run
       \<and> length (run_fetched run) \<le> 50 \<and> length (run_declarations run) \<le> 50)
   \<and> (\<forall>info index_uri index_graph w1 requests.
         parse_fip_header hg = Inr info
         \<and> info ''declaration_index'' = Some (PStr index_uri) \<and> index_uri \<noteq> []
         \<and> fetch_nanopub env index_uri ''trig'' w = (Some index_graph, w1, requests)
         \<and> index_graph \<noteq> []
         \<longrightarrow> (\<exists>run. read_fip_from_file env hg True w = Inr run
               \<and> map fst (run_fetched run) = take 50 (extract_declarations_from_index env index_graph)
               \<and> fetch_declarations env (take 50 (extract_declarations_from_index env index_graph)) w1
                   = (run_declarations run, run_world run, run_fetched run)))"
proof (intro conjI allI impI)
  from read_fip_from_file_run [of env hg fetch_remote w] obtain run
    where r: "read_fip_from_file env hg fetch_remote w = Inr run"
      and s: "run_declarations run = [] \<and> run_fetched run = []
         \<or> (\<exists>u. fetch_from_index env u w = (run_declarations run, run_world run, run_fetched run))"
    by blast
  from s have "length (run_fetched run) \<le> 50 \<and> length (run_declarations run) \<le> 50"
    using fetch_from_index_bound by fastforce
  with r show "\<exists>run. read_fip_from_file env hg fetch_remote w = Inr run
       \<and> length (run_fetched run) \<le> 50 \<and> length (run_declarations run) \<le> 50"
    by blast
next
  fix info index_uri index_graph w1 requests
  assume a: "parse_fip_header hg = Inr info
         \<and> info ''declaration_index'' = Some (PStr index_uri) \<and> index_uri \<noteq> []
         \<and> fetch_nanopub env index_uri ''trig'' w = (Some index_graph, w1, requests)
         \<and> index_graph \<noteq> []"
  let ?uris = "take 50 (extract_declarations_from_index env index_graph)"
  obtain ds w' fetched where f: "fetch_declarations env ?uris w1 = (ds, w', fetched)"
    by (cases "fetch_declarations env ?uris w1")
  from a f have fi: "fetch_from_index env index_uri w = (ds, w', fetched)"
    by (simp add: fetch_from_index_def graph_truthy_def)
  from a have p: "parse_fip_header hg = Inr info"
    and x: "info ''declaration_index'' = Some (PStr index_uri)" and ne: "index_uri \<noteq> []"
    by simp_all
  have r: "read_fip_from_file env hg True w =
      Inr \<lparr>run_fip_info = info, run_declarations = ds,
           run_organized = organize_by_principle ds,
           run_fetched = fetched, run_world = w'\<rparr>"
    unfolding read_fip_from_file_index [OF p x ne] fi by simp
  from fetch_declarations_fetched [OF f] have m: "map fst fetched = ?uris" by simp
  show "\<exists>run. read_fip_from_file env hg True w = Inr run
               \<and> map fst (run_fetched run) = ?uris
               \<and> fetch_declarations env ?uris w1
                   = (run_declarations run, run_world run, run_fetched run)"
    by (rule exI [of _ "\<lparr>run_fip_info = info, run_declarations = ds,
           run_organized = organize_by_principle ds,
           run_fetched = fetched, run_world = w'\<rparr>"])
      (simp add: r m f)
qed

theorem read_fip_from_file_cap_witness:
  "\<exists>info. parse_fip_header
       [\<lparr>q_subject = ''http://example.org/fip'',
          q_predicate = ''https://w3id.org/fair/fip/terms/declaration-index'',
          q_object = ''https://example.org/np/RAindex'', q_literal = False,
          q_graph = ''http://example.org/fip#assertion''\<rparr>] = Inr info
     \<and> info ''declaration_index'' = Some (PStr ''https://example.org/np/RAindex'')
     \<and> ''https://example.org/np/RAindex'' \<noteq> []
     \<and> fetch_nanopub
          \<lparr>http_get = (\<lambda>url (w::nat).
             (if url = ''https://example.org/np/RAindex.trig'' then Response 200 ''index''
              else Response 404 [], Suc w)),
            parse_trig = (\<lambda>text.
              if text = ''index''
              then Some (map (\<lambda>n. \<lparr>q_subject = ''https://example.org/np/RAindex'',
                     q_predicate = ''http://purl.org/nanopub/x/includesElement'',
                     q_object = ''https://example.org/np/RA'' @ replicate n (CHR ''x''),
                     q_literal = False, q_graph = ''a''\<rparr>) [0..<51])
              else None),
            list_of_set = remdups\<rparr>
          ''https://example.org/np/RAindex'' ''trig'' 0
        = (Some (map (\<lambda>n. \<lparr>q_subject = ''https://example.org/np/RAindex'',
                     q_predicate = ''http://purl.org/nanopub/x/includesElement'',
                     q_object = ''https://example.org/np/RA'' @ replicate n (CHR ''x''),
                     q_literal = False, q_graph = ''a''\<rparr>) [0..<51]),
           1, [(''https://example.org/np/RAindex.trig'', Response 200 ''index'')])
     \<and> length (extract_declarations_from_index
          \<lparr>http_get = (\<lambda>url (w::nat).
             (if url = ''https://example.org/np/RAindex.trig'' then Response 200 ''index''
              else Response 404 [], Suc w)),
            parse_trig = (\<lambda>text.
              if text = ''index''
              then Some (map (\<lambda>n. \<lparr>q_subject = ''https://example.org/np/RAindex'',
                     q_predicate = ''http://purl.org/nanopub/x/includesElement'',
                     q_object = ''https://example.org/np/RA'' @ replicate n (CHR ''x''),
                     q_literal = False, q_graph = ''a''\<rparr>) [0..<51])
              else None),
            list_of_set = remdups\<rparr>
          (map (\<lambda>n. \<lparr>q_subject = ''https://example.org/np/RAindex'',
                     q_predicate = ''http://purl.org/nanopub/x/includesElement'',
                     q_object = ''https://example.org/np/RA'' @ replicate n (CHR ''x''),
                     q_literal = False, q_graph = ''a''\<rparr>) [0..<51])) = 51
     \<and> (\<exists>run. read_fip_from_file
          \<lparr>http_get = (\<lambda>url (w::nat).
             (if url = ''https://example.org/np/RAindex.trig'' then Response 200 ''index''
              else Response 404 [], Suc w)),
            parse_trig = (\<lambda>text.
              if text = ''index''
              then Some (map (\<lambda>n. \<lparr>q_subject = ''https://example.org/np/RAindex'',
                     q_predicate = ''http://purl.org/nanopub/x/includesElement'',
                     q_object = ''https://example.org/np/RA'' @ replicate n (CHR ''x''),
                     q_literal = False, q_graph = ''a''\<rparr>) [0..<51])
              else None),
            list_of_set = remdups\<rparr>
          [\<lparr>q_subject = ''http://example.org/fip'',
             q_predicate = ''https://w3id.org/fair/fip/terms/declaration-index'',
             q_object = ''https://example.org/np/RAindex'', q_literal = False,
             q_graph = ''http://example.org/fip#assertion''\<rparr>] True 0 = Inr run
          \<and> length (run_fetched run) = 50)"
proof -
  let ?ig = "map (\<lambda>n. \<lparr>q_subject = ''https://example.org/np/RAindex'',
                     q_predicate = ''http://purl.org/nanopub/x/includesElement'',
                     q_object = ''https://example.org/np/RA'' @ replicate n (CHR ''x''),
                     q_literal = False, q_graph = ''a''\<rparr>) [0..<51]"
  let ?env = "\<lparr>http_get = (\<lambda>url (w::nat).
             (if url = ''https://example.org/np/RAindex.trig'' then Response 200 ''index''
              else Response 404 [], Suc w)),
            parse_trig = (\<lambda>text. if text = ''index'' then Some ?ig else None),
            list_of_set = remdups\<rparr>"
  let ?hg = "[\<lparr>q_subject = ''http://example.org/fip'',
          q_predicate = ''https://w3id.org/fair/fip/terms/declaration-index'',
          q_object = ''https://example.org/np/RAindex'', q_literal = False,
          q_graph = ''http://example.org/fip#assertion''\<rparr>]"
  have c: "(case filter (\<lambda>q. str_contains ''declaration-index'' (str_lower (q_predicate q))) ?hg of
               [] \<Rightarrow> PNone | ms \<Rightarrow> PStr (q_object (last ms))) = PStr ''https://example.org/np/RAindex''"
    by code_simp
  from parse_fip_header_index [of ?hg] obtain info
    where p: "parse_fip_header ?hg = Inr info"
      and "info ''declaration_index'' =
         Some (case filter (\<lambda>q. str_contains ''declaration-index'' (str_lower (q_predicate q))) ?hg of
                 [] \<Rightarrow> PNone | ms \<Rightarrow> PStr (q_object (last ms)))"
    by (elim exE conjE)
  then have x: "info ''declaration_index'' = Some (PStr ''https://example.org/np/RAindex'')"
    by (simp only: c)
  have ne: "''https://example.org/np/RAindex'' \<noteq> []" by simp
  have f: "fetch_nanopub ?env ''https://example.org/np/RAindex'' ''trig'' 0
      = (Some ?ig, 1, [(''https://example.org/np/RAindex.trig'', Response 200 ''index'')])"
    by code_simp
  have ine: "?ig \<noteq> []" by simp
  have l: "length (extract_declarations_from_index ?env ?ig) = 51" by code_simp
  from read_fip_from_file_cap [of ?env ?hg True 0, THEN conjunct2] p x ne f ine
  obtain run where r: "read_fip_from_file ?env ?hg True 0 = Inr run"
    and m: "map fst (run_fetched run) = take 50 (extract_declarations_from_index ?env ?ig)"
    by blast
  from m have "length (map fst (run_fetched run))
      = length (take 50 (extract_declarations_from_index ?env ?ig))" by (rule arg_cong)
  with l have "length (run_fetched run) = 50" by simp
  with r have e: "\<exists>run. read_fip_from_file ?env ?hg True 0 = Inr run \<and> length (run_fetched run) = 50"
    by blast
  show ?thesis
    by (rule exI [of _ info]) (intro conjI p x ne f l e)
qed

end
